theory Spec2Isabelle
  imports Complex_Main "HOL-Library.Word" "HOL-Library.Sublist"
begin

section \<open>JavaScript strings and values\<close>

text \<open>
  A JavaScript string is a sequence of UTF-16 code units; \<open>length\<close>, \<open>includes\<close>,
  \<open>startsWith\<close>, \<open>trim\<close> and regular expressions without the \<open>u\<close> flag all work on
  code units. String literals of the sources that are pure ASCII are written through
  \<open>js\<close>; the Japanese literals are written as lists of code units.
\<close>

type_synonym jschar = "16 word"
type_synonym jsstring = "jschar list"

definition js :: "string \<Rightarrow> jsstring" where
  "js s = map (\<lambda>c. of_nat (of_char c)) s"

text \<open>
  The values a running program holds: what \<open>JSON.parse\<close> builds, and \<open>undefined\<close>.
  An object is the list of its own properties in creation order. A finite number is
  the real it denotes (negative zero is zero, and the rounding of the last bits of a
  double is not modelled); \<open>JInf\<close> is \<open>Infinity\<close>, or \<open>-Infinity\<close> when its argument is true.
\<close>

datatype jsval =
    Undefined
  | JNull
  | JBool bool
  | JNum real
  | JInf bool
  | JStr jsstring
  | JArr "jsval list"
  | JObj "(jsstring \<times> jsval) list"

text \<open>Thrown values: \<open>new Error(message)\<close> of the sources, and the engine's own
  \<open>TypeError\<close> and \<open>SyntaxError\<close>, all with a \<open>message\<close>.\<close>

datatype js_error = Error jsstring | TypeError jsstring | SyntaxError jsstring

fun message :: "js_error \<Rightarrow> jsstring" where
  "message (Error m) = m"
| "message (TypeError m) = m"
| "message (SyntaxError m) = m"

text \<open>What the engine supplies and the sources do not fix: the text of a number that is
  converted to a string, and the message of the \<open>TypeError\<close> of a property read on
  \<open>null\<close> or \<open>undefined\<close>.\<close>

record engine =
  numberToString :: "real \<Rightarrow> jsstring"
  typeErrorMessage :: jsstring

subsection \<open>Strings\<close>

text \<open>White space and line terminators: the characters \<open>\s\<close> matches and \<open>trim\<close> removes.\<close>

definition is_whitespace :: "jschar \<Rightarrow> bool" where
  "is_whitespace c =
     (c \<in> set [0x09, 0x0A, 0x0B, 0x0C, 0x0D, 0x20, 0xA0, 0x1680, 0x2028, 0x2029, 0x202F,
                0x205F, 0x3000, 0xFEFF]
      \<or> (0x2000 \<le> c \<and> c \<le> 0x200A))"

definition trim :: "jsstring \<Rightarrow> jsstring" where
  "trim s = rev (dropWhile is_whitespace (rev (dropWhile is_whitespace s)))"

definition startsWith :: "jsstring \<Rightarrow> jsstring \<Rightarrow> bool" where
  "startsWith s p = prefix p s"

fun includes_js :: "jsstring \<Rightarrow> jsstring \<Rightarrow> bool" where
  "includes_js [] p = (p = [])"
| "includes_js (c # cs) p = (prefix p (c # cs) \<or> includes_js cs p)"

text \<open>\<open>\d\<close> and \<open>\w\<close> of a regular expression without flags: ASCII only.\<close>

definition is_digit :: "jschar \<Rightarrow> bool" where
  "is_digit c = (0x30 \<le> c \<and> c \<le> 0x39)"

definition is_word_char :: "jschar \<Rightarrow> bool" where
  "is_word_char c =
     ((0x41 \<le> c \<and> c \<le> 0x5A) \<or> (0x61 \<le> c \<and> c \<le> 0x7A) \<or> is_digit c \<or> c = 0x5F)"

text \<open>\<open>Number.prototype.toString\<close> of a non-negative integer (\<open>Date.now().toString()\<close>,
  and the status code inside a template literal).\<close>

definition digit_char :: "nat \<Rightarrow> jschar" where
  "digit_char d = of_nat (48 + d)"

fun show_nat :: "nat \<Rightarrow> jsstring" where
  "show_nat n = (if n < 10 then [digit_char n] else show_nat (n div 10) @ [digit_char (n mod 10)])"

declare show_nat.simps [simp del]

subsection \<open>Values\<close>

text \<open>\<open>ToBoolean\<close>: what \<open>||\<close>, \<open>!\<close> and \<open>if\<close> test.\<close>

fun truthy :: "jsval \<Rightarrow> bool" where
  "truthy Undefined = False"
| "truthy JNull = False"
| "truthy (JBool b) = b"
| "truthy (JNum r) = (r \<noteq> 0)"
| "truthy (JInf negative) = True"
| "truthy (JStr s) = (s \<noteq> [])"
| "truthy (JArr xs) = True"
| "truthy (JObj kvs) = True"

definition or_else :: "jsval \<Rightarrow> jsval \<Rightarrow> jsval" where
  "or_else a b = (if truthy a then a else b)"

text \<open>
  A property read \<open>v.name\<close>, for a name that no prototype defines (the sources read
  \<open>error\<close>, \<open>code\<close>, \<open>message\<close>, \<open>choices\<close>, \<open>content\<close>, \<open>answer\<close>, \<open>explanation\<close> and
  \<open>confidence\<close>): \<open>None\<close> is the \<open>TypeError\<close> of a read on \<open>null\<close> or \<open>undefined\<close>; on
  an object the last property of that name counts (a later duplicate key of a JSON text
  overwrites an earlier one); any other value has no such property.
\<close>

fun get_prop :: "jsval \<Rightarrow> jsstring \<Rightarrow> jsval option" where
  "get_prop Undefined k = None"
| "get_prop JNull k = None"
| "get_prop (JObj kvs) k = (case map_of (rev kvs) k of None \<Rightarrow> Some Undefined | Some v \<Rightarrow> Some v)"
| "get_prop v k = Some Undefined"

text \<open>Optional chaining \<open>v?.name\<close>: \<open>undefined\<close> instead of the \<open>TypeError\<close>.\<close>

definition opt_prop :: "jsval \<Rightarrow> jsstring \<Rightarrow> jsval" where
  "opt_prop v k = (case get_prop v k of None \<Rightarrow> Undefined | Some x \<Rightarrow> x)"

text \<open>The element read \<open>v[0]\<close>.\<close>

fun elem0 :: "jsval \<Rightarrow> jsval option" where
  "elem0 Undefined = None"
| "elem0 JNull = None"
| "elem0 (JArr xs) = (case xs of [] \<Rightarrow> Some Undefined | x # _ \<Rightarrow> Some x)"
| "elem0 (JStr s) = (case s of [] \<Rightarrow> Some Undefined | c # _ \<Rightarrow> Some (JStr [c]))"
| "elem0 (JObj kvs) = get_prop (JObj kvs) (js ''0'')"
| "elem0 v = Some Undefined"

text \<open>\<open>ToString\<close>, as a template literal and \<open>JSON.parse\<close> apply it to a value.\<close>

fun join_comma :: "jsstring list \<Rightarrow> jsstring" where
  "join_comma [] = []"
| "join_comma [s] = s"
| "join_comma (s # t # rest) = s @ js '','' @ join_comma (t # rest)"

fun ToString :: "engine \<Rightarrow> jsval \<Rightarrow> jsstring" where
  "ToString eng Undefined = js ''undefined''"
| "ToString eng JNull = js ''null''"
| "ToString eng (JBool b) = (if b then js ''true'' else js ''false'')"
| "ToString eng (JNum r) = numberToString eng r"
| "ToString eng (JInf negative) = (if negative then js ''-Infinity'' else js ''Infinity'')"
| "ToString eng (JStr s) = s"
| "ToString eng (JArr xs) =
     join_comma (map (\<lambda>x. if x = Undefined \<or> x = JNull then [] else ToString eng x) xs)"
| "ToString eng (JObj kvs) = js ''[object Object]''"

section \<open>\<open>JSON.parse\<close>\<close>

text \<open>
  The JSON grammar that \<open>JSON.parse\<close> accepts: white space is space, tab, line feed and
  carriage return; a value is an object, an array, a string, a number or one of
  \<open>null\<close>, \<open>true\<close>, \<open>false\<close>; nothing but white space may follow it. \<open>None\<close> is the
  \<open>SyntaxError\<close>.
\<close>

definition is_json_ws :: "jschar \<Rightarrow> bool" where
  "is_json_ws c = (c = 0x20 \<or> c = 0x09 \<or> c = 0x0A \<or> c = 0x0D)"

definition skip_ws :: "jsstring \<Rightarrow> jsstring" where
  "skip_ws s = dropWhile is_json_ws s"

definition take_literal :: "jsstring \<Rightarrow> jsstring \<Rightarrow> jsstring option" where
  "take_literal p s = (if prefix p s then Some (drop (length p) s) else None)"

definition digits_value :: "jsstring \<Rightarrow> nat" where
  "digits_value ds = foldl (\<lambda>a c. 10 * a + (unat c - 48)) 0 ds"

definition hex_value :: "jschar \<Rightarrow> nat option" where
  "hex_value c =
     (if 0x30 \<le> c \<and> c \<le> 0x39 then Some (unat c - 0x30)
      else if 0x41 \<le> c \<and> c \<le> 0x46 then Some (unat c - 0x41 + 10)
      else if 0x61 \<le> c \<and> c \<le> 0x66 then Some (unat c - 0x61 + 10)
      else None)"

definition simple_escape :: "jschar \<Rightarrow> jschar option" where
  "simple_escape e =
     (if e = 0x22 \<or> e = 0x5C \<or> e = 0x2F then Some e
      else if e = 0x62 then Some 0x08
      else if e = 0x66 then Some 0x0C
      else if e = 0x6E then Some 0x0A
      else if e = 0x72 then Some 0x0D
      else if e = 0x74 then Some 0x09
      else None)"

fun parse_string_chars :: "jsstring \<Rightarrow> (jsstring \<times> jsstring) option" where
  "parse_string_chars [] = None"
| "parse_string_chars (c # cs) =
     (if c = 0x22 then Some ([], cs)
      else if c = 0x5C then
        (case cs of
           [] \<Rightarrow> None
         | e # r \<Rightarrow>
             if e = 0x75 then
               (case r of
                  h1 # h2 # h3 # h4 # r' \<Rightarrow>
                    (case (hex_value h1, hex_value h2, hex_value h3, hex_value h4) of
                       (Some a, Some b, Some c', Some d) \<Rightarrow>
                         (case parse_string_chars r' of
                            None \<Rightarrow> None
                          | Some (t, rest) \<Rightarrow>
                              Some (of_nat (4096 * a + 256 * b + 16 * c' + d) # t, rest))
                     | _ \<Rightarrow> None)
                | _ \<Rightarrow> None)
             else
               (case simple_escape e of
                  None \<Rightarrow> None
                | Some x \<Rightarrow>
                    (case parse_string_chars r of
                       None \<Rightarrow> None
                     | Some (t, rest) \<Rightarrow> Some (x # t, rest))))
      else if c < 0x20 then None
      else (case parse_string_chars cs of
              None \<Rightarrow> None
            | Some (t, rest) \<Rightarrow> Some (c # t, rest)))"

definition parse_int_part :: "jsstring \<Rightarrow> (nat \<times> jsstring) option" where
  "parse_int_part s =
     (case s of
        [] \<Rightarrow> None
      | c # cs \<Rightarrow>
          if c = 0x30 then Some (0, cs)
          else if is_digit c then Some (digits_value (takeWhile is_digit s), dropWhile is_digit s)
          else None)"

text \<open>The digits after the point: their value and how many there are.\<close>

definition parse_fraction :: "jsstring \<Rightarrow> ((nat \<times> nat) \<times> jsstring) option" where
  "parse_fraction s =
     (case s of
        c # cs \<Rightarrow>
          if c = 0x2E then
            (let ds = takeWhile is_digit cs
             in if ds = [] then None
                else Some ((digits_value ds, length ds), dropWhile is_digit cs))
          else Some ((0, 0), s)
      | [] \<Rightarrow> Some ((0, 0), s))"

definition parse_exponent :: "jsstring \<Rightarrow> (int \<times> jsstring) option" where
  "parse_exponent s =
     (case s of
        c # cs \<Rightarrow>
          if c = 0x65 \<or> c = 0x45 then
            (let (neg, r) = (case cs of
                               d # ds \<Rightarrow> if d = 0x2D then (True, ds)
                                          else if d = 0x2B then (False, ds) else (False, cs)
                             | [] \<Rightarrow> (False, cs));
                 ds = takeWhile is_digit r
             in if ds = [] then None
                else Some (if neg then - int (digits_value ds) else int (digits_value ds),
                           dropWhile is_digit r))
          else Some (0, s)
      | [] \<Rightarrow> Some (0, s))"

text \<open>
  The Number value of the literal \<open>m\<close> times ten to the \<open>k\<close>, as a double rounded to
  nearest, ties to even. The least positive double is \<open>2^-1074\<close>, so the literal is the
  number 0 exactly when its value is at most \<open>2^-1075\<close>. The greatest finite double is
  \<open>2^1024 - 2^971\<close>, so the literal is \<open>Infinity\<close> exactly when its value is at least
  \<open>2^1024 - 2^970\<close>. Any other literal is a finite number that is not zero, written
  here as the real the literal denotes.
\<close>

definition rounds_to_zero :: "nat \<Rightarrow> int \<Rightarrow> bool" where
  "rounds_to_zero m k = (m = 0 \<or> (k < 0 \<and> int m * 2 ^ 1075 \<le> 10 ^ nat (- k)))"

definition rounds_to_infinity :: "nat \<Rightarrow> int \<Rightarrow> bool" where
  "rounds_to_infinity m k =
     (if 0 \<le> k then (2 ^ 1024 - 2 ^ 970 :: int) \<le> int m * 10 ^ nat k
      else (2 ^ 1024 - 2 ^ 970) * 10 ^ nat (- k) \<le> int m)"

definition json_number :: "bool \<Rightarrow> nat \<Rightarrow> int \<Rightarrow> jsval" where
  "json_number neg m k =
     (if rounds_to_zero m k then JNum 0
      else if rounds_to_infinity m k then JInf neg
      else JNum ((if neg then - 1 else 1)
                 * (if 0 \<le> k then real (m * 10 ^ nat k) else real m / 10 ^ nat (- k))))"

definition parse_number :: "jsstring \<Rightarrow> (jsval \<times> jsstring) option" where
  "parse_number s =
     (let (neg, s1) = (case s of c # cs \<Rightarrow> if c = 0x2D then (True, cs) else (False, s)
                       | [] \<Rightarrow> (False, s))
      in case parse_int_part s1 of
           None \<Rightarrow> None
         | Some (n, s2) \<Rightarrow>
             (case parse_fraction s2 of
                None \<Rightarrow> None
              | Some ((fd, fl), s3) \<Rightarrow>
                  (case parse_exponent s3 of
                     None \<Rightarrow> None
                   | Some (e, s4) \<Rightarrow>
                       Some (json_number neg (n * 10 ^ fl + fd) (e - int fl), s4))))"

lemma skip_ws_Cons_shorter: "skip_ws s = c # cs \<Longrightarrow> length cs < length s"
proof -
  assume a: "skip_ws s = c # cs"
  have "length (skip_ws s) \<le> length s"
    by (simp add: skip_ws_def length_dropWhile_le)
  with a show ?thesis by simp
qed

lemma parse_string_chars_shorter:
  "parse_string_chars s = Some (t, r) \<Longrightarrow> length r < length s"
proof (induction s arbitrary: t r rule: parse_string_chars.induct)
  case 1
  then show ?case by simp
next
  case (2 c cs)
  then show ?case
    by (auto split: if_splits list.splits option.splits prod.splits) fastforce+
qed

text \<open>
  The three parsers return the value read and the input left. \<open>parse_elements\<close> and
  \<open>parse_members\<close> start after the opening bracket or a comma and read up to the closing
  bracket. The test \<open>length cs < length s\<close> before they go round again is there for the
  termination proof only: the lemmas \<open>parse_elements_loop\<close> and \<open>parse_members_loop\<close> show
  that it always holds.
\<close>

function parse_value :: "jsstring \<Rightarrow> (jsval \<times> jsstring) option"
  and parse_elements :: "jsstring \<Rightarrow> (jsval list \<times> jsstring) option"
  and parse_members :: "jsstring \<Rightarrow> ((jsstring \<times> jsval) list \<times> jsstring) option" where
  "parse_value s =
     (case skip_ws s of
        [] \<Rightarrow> None
      | c # cs \<Rightarrow>
          if c = 0x7B then
            (case skip_ws cs of
               [] \<Rightarrow> None
             | d # ds \<Rightarrow>
                 if d = 0x7D then Some (JObj [], ds)
                 else (case parse_members cs of
                         None \<Rightarrow> None
                       | Some (kvs, r) \<Rightarrow> Some (JObj kvs, r)))
          else if c = 0x5B then
            (case skip_ws cs of
               [] \<Rightarrow> None
             | d # ds \<Rightarrow>
                 if d = 0x5D then Some (JArr [], ds)
                 else (case parse_elements cs of
                         None \<Rightarrow> None
                       | Some (vs, r) \<Rightarrow> Some (JArr vs, r)))
          else if c = 0x22 then
            (case parse_string_chars cs of
               None \<Rightarrow> None
             | Some (t, r) \<Rightarrow> Some (JStr t, r))
          else if c = 0x6E then
            (case take_literal (js ''null'') (c # cs) of
               None \<Rightarrow> None | Some r \<Rightarrow> Some (JNull, r))
          else if c = 0x74 then
            (case take_literal (js ''true'') (c # cs) of
               None \<Rightarrow> None | Some r \<Rightarrow> Some (JBool True, r))
          else if c = 0x66 then
            (case take_literal (js ''false'') (c # cs) of
               None \<Rightarrow> None | Some r \<Rightarrow> Some (JBool False, r))
          else parse_number (c # cs))"
| "parse_elements s =
     (case parse_value s of
        None \<Rightarrow> None
      | Some (v, r) \<Rightarrow>
          (case skip_ws r of
             [] \<Rightarrow> None
           | c # cs \<Rightarrow>
               if c = 0x5D then Some ([v], cs)
               else if c = 0x2C \<and> length cs < length s then
                 (case parse_elements cs of
                    None \<Rightarrow> None
                  | Some (vs, r') \<Rightarrow> Some (v # vs, r'))
               else None))"
| "parse_members s =
     (case skip_ws s of
        [] \<Rightarrow> None
      | q # s1 \<Rightarrow>
          if q \<noteq> 0x22 then None
          else
            (case parse_string_chars s1 of
               None \<Rightarrow> None
             | Some (k, s2) \<Rightarrow>
                 (case skip_ws s2 of
                    [] \<Rightarrow> None
                  | colon # s3 \<Rightarrow>
                      if colon \<noteq> 0x3A then None
                      else
                        (case parse_value s3 of
                           None \<Rightarrow> None
                         | Some (v, r) \<Rightarrow>
                             (case skip_ws r of
                                [] \<Rightarrow> None
                              | c # cs \<Rightarrow>
                                  if c = 0x7D then Some ([(k, v)], cs)
                                  else if c = 0x2C \<and> length cs < length s then
                                    (case parse_members cs of
                                       None \<Rightarrow> None
                                     | Some (kvs, r') \<Rightarrow> Some ((k, v) # kvs, r'))
                                  else None)))))"
  by pat_completeness auto
termination
proof (relation "measure (\<lambda>x. case x of
          Inl s \<Rightarrow> 2 * length s
        | Inr (Inl s) \<Rightarrow> 2 * length s + 1
        | Inr (Inr s) \<Rightarrow> 2 * length s + 1)", goal_cases)
  case 1
  then show ?case by simp
next
  case (2 s c cs d ds)
  then show ?case using skip_ws_Cons_shorter [of s c cs] by simp
next
  case (3 s c cs d ds)
  then show ?case using skip_ws_Cons_shorter [of s c cs] by simp
next
  case (4 s)
  then show ?case by simp
next
  case (5 s x2 v r c cs)
  then show ?case by simp
next
  case (6 s q s1 x2 k s2 colon s3)
  then show ?case
    using skip_ws_Cons_shorter [of s q s1] parse_string_chars_shorter [of s1 k s2]
      skip_ws_Cons_shorter [of s2 colon s3]
    by simp
next
  case (7 s q s1 x2 k s2 colon s3 x2a v r c cs)
  then show ?case by simp
qed

declare parse_value.simps [simp del] parse_elements.simps [simp del] parse_members.simps [simp del]

definition JSON_parse :: "jsstring \<Rightarrow> jsval option" where
  "JSON_parse s =
     (case parse_value s of
        None \<Rightarrow> None
      | Some (v, r) \<Rightarrow> if skip_ws r = [] then Some v else None)"

section \<open>Data model (the records of \<open>@/types\<close>, as the screens build them)\<close>

record OCRResult =
  ocr_id :: jsstring
  ocr_text :: jsstring
  ocr_confidence :: real
  ocr_timestamp :: nat

record AIResponse =
  ai_id :: jsstring
  question :: jsstring
  answer :: jsval
  explanation :: jsval
  ai_confidence :: jsval
  ai_timestamp :: nat

record HistoryItem =
  item_id :: jsstring
  ocrResult :: OCRResult
  aiResponse :: AIResponse

text \<open>What a screen does to the outside: an alert shown to the user (title and
  message), a result handed to the \<open>onResult\<close> callback, a text sent to the completion
  client, an error written to the console.\<close>

datatype effect =
    Alert jsstring jsstring
  | OnResult OCRResult AIResponse
  | Analyze jsstring
  | ConsoleError js_error

section \<open>The key-value store\<close>

text \<open>
  \<open>AsyncStorage\<close> holds four keys: \<open>openai_api_key\<close> (the raw string), \<open>auto_capture\<close> and
  \<open>save_history\<close> (\<open>JSON.stringify\<close> of a boolean) and \<open>analysis_history\<close>
  (\<open>JSON.stringify\<close> of the array of items). A field is \<open>None\<close> while the key is absent;
  the two flags and the history are kept as the values whose serialisation is stored.
  Every call on the store can reject; the screens catch that and go on, so each
  operation takes the outcome of its calls as an input.
\<close>

record storage =
  openai_api_key :: "jsstring option"
  auto_capture :: "bool option"
  save_history :: "bool option"
  analysis_history :: "HistoryItem list option"

definition empty_storage :: storage where
  "empty_storage =
     \<lparr>openai_api_key = None, auto_capture = None, save_history = None, analysis_history = None\<rparr>"

record io =
  getItem_ok :: bool
  setItem_ok :: bool
  removeItem_ok :: bool

definition io_ok :: io where
  "io_ok = \<lparr>getItem_ok = True, setItem_ok = True, removeItem_ok = True\<rparr>"

section \<open>Text recognition: \<open>OCRService\<close>\<close>

record ocr_service =
  worker :: bool
  isInitialized :: bool
  isInitializing :: bool

text \<open>
  The outcomes of the calls into the recognition engine: whether \<open>createWorker\<close> and
  \<open>setParameters\<close> succeed, the state of the service when a wait for an initialisation
  in progress is over, and \<open>data.text\<close> with \<open>data.confidence\<close> of \<open>worker.recognize\<close>
  (\<open>None\<close> when anything inside the \<open>try\<close> throws).
\<close>

record ocr_env =
  createWorker_ok :: bool
  setParameters_ok :: bool
  after_wait :: ocr_service
  recognized :: "(jsstring \<times> real) option"

record ocr_output =
  rec_text :: jsstring
  rec_confidence :: real

definition initialize :: "ocr_env \<Rightarrow> ocr_service \<Rightarrow> (js_error + unit) \<times> ocr_service" where
  "initialize env svc =
     (if isInitialized svc then (Inr (), svc)
      else if isInitializing svc then (Inr (), after_wait env)
      else if \<not> createWorker_ok env then
        (Inl (Error [0x4F, 0x43, 0x52, 0x306E, 0x521D, 0x671F, 0x5316, 0x306B, 0x5931, 0x6557,
            0x3057, 0x307E, 0x3057, 0x305F]), svc\<lparr>isInitializing := False\<rparr>)
      else if \<not> setParameters_ok env then
        (Inl (Error [0x4F, 0x43, 0x52, 0x306E, 0x521D, 0x671F, 0x5316, 0x306B, 0x5931, 0x6557,
            0x3057, 0x307E, 0x3057, 0x305F]), svc\<lparr>worker := True, isInitializing := False\<rparr>)
      else (Inr (), svc\<lparr>worker := True, isInitialized := True, isInitializing := False\<rparr>))"

text \<open>\<open>replace(/\s+/g, ' ')\<close>: every maximal run of white space becomes one space.\<close>

function collapse_whitespace :: "jsstring \<Rightarrow> jsstring" where
  "collapse_whitespace [] = []"
| "collapse_whitespace (c # cs) =
     (if is_whitespace c then 0x20 # collapse_whitespace (dropWhile is_whitespace cs)
      else c # collapse_whitespace cs)"
  by pat_completeness auto
termination
  by (relation "measure length") (auto simp: length_dropWhile_le less_Suc_eq_le)

text \<open>
  The characters the second \<open>replace\<close> keeps (it deletes every match of a negated class):
  \<open>\w\<close>, \<open>\s\<close>, U+3040 to U+309F (hiragana), U+30A0 to U+30FF (katakana), U+4E00 to
  U+9FAF (kanji), and \<open>+\<close>, \<open>-\<close>, the multiplication and division signs, \<open>=\<close>, \<open>(\<close>, \<open>)\<close>,
  \<open>?\<close>, \<open>!\<close>, and the ideographic full stop and comma.
\<close>

definition is_allowed_char :: "jschar \<Rightarrow> bool" where
  "is_allowed_char c =
     (is_word_char c \<or> is_whitespace c
      \<or> (0x3040 \<le> c \<and> c \<le> 0x309F) \<or> (0x30A0 \<le> c \<and> c \<le> 0x30FF)
      \<or> (0x4E00 \<le> c \<and> c \<le> 0x9FAF)
      \<or> c \<in> set [0x2B, 0x2D, 0xD7, 0xF7, 0x3D, 0x28, 0x29, 0x3F, 0x21, 0x3002, 0x3001])"

definition strip_disallowed :: "jsstring \<Rightarrow> jsstring" where
  "strip_disallowed s = filter is_allowed_char s"

definition cleanText :: "jsstring \<Rightarrow> jsstring" where
  "cleanText raw = trim (strip_disallowed (collapse_whitespace raw))"

definition recognizeText ::
  "ocr_env \<Rightarrow> ocr_service \<Rightarrow> jsstring \<Rightarrow> bool \<Rightarrow> (js_error + ocr_output) \<times> ocr_service" where
  "recognizeText env svc imageUri isRealtime =
     (let (r, svc1) = (if \<not> isInitialized svc then initialize env svc else (Inr (), svc))
      in case r of
           Inl e \<Rightarrow> (Inl e, svc1)
         | Inr _ \<Rightarrow>
             if \<not> worker svc1 then (Inl (Error [0x4F, 0x43, 0x52, 0x30EF, 0x30FC, 0x30AB,
                 0x30FC, 0x304C, 0x521D, 0x671F, 0x5316, 0x3055, 0x308C, 0x3066, 0x3044, 0x307E,
                 0x305B, 0x3093]), svc1)
             else (case recognized env of
                     None \<Rightarrow> (Inl (Error [0x30C6, 0x30AD, 0x30B9, 0x30C8, 0x8A8D,
                         0x8B58, 0x306B, 0x5931, 0x6557, 0x3057, 0x307E, 0x3057, 0x305F]), svc1)
                   | Some (t, c) \<Rightarrow>
                       (Inr \<lparr>rec_text = cleanText t, rec_confidence = max 0.1 (c / 100)\<rparr>, svc1)))"

definition terminate :: "ocr_service \<Rightarrow> ocr_service" where
  "terminate svc =
     (if worker svc then \<lparr>worker = False, isInitialized = False, isInitializing = False\<rparr>
      else svc)"

section \<open>Completion client: \<open>OpenAIService\<close>\<close>

record openai_service =
  service_apiKey :: jsstring

definition setApiKey :: "jsstring \<Rightarrow> openai_service \<Rightarrow> openai_service" where
  "setApiKey k svc = svc\<lparr>service_apiKey := k\<rparr>"

definition clearApiKey :: "openai_service \<Rightarrow> openai_service" where
  "clearApiKey svc = svc\<lparr>service_apiKey := []\<rparr>"

definition hasApiKey :: "openai_service \<Rightarrow> bool" where
  "hasApiKey svc = (length (service_apiKey svc) > 0)"

text \<open>
  The answer of \<open>fetch\<close>: the status code and what \<open>response.json()\<close> gives, either the
  parsed body or, for a body that is not JSON, a \<open>SyntaxError\<close> with the engine's message.
  \<open>response.ok\<close> is true for the statuses 200 to 299.
\<close>

record http_response =
  status :: nat
  body :: "jsstring + jsval"

definition ok :: "http_response \<Rightarrow> bool" where
  "ok response = (200 \<le> status response \<and> status response \<le> 299)"

record analysis =
  ans_answer :: jsval
  ans_explanation :: jsval
  ans_confidence :: jsval

text \<open>
  The errors \<open>analyzeText\<close> throws, under the names the specification gives them. The
  Japanese messages are lists of UTF-16 code units. \<open>InvalidCredential\<close> says that the API
  key is invalid and a correct OpenAI API key should be set; it opens with \<open>API\<close> and
  U+30AD U+30FC U+304C U+7121 U+52B9. \<open>QuotaExceeded\<close> says that the usage quota of the
  OpenAI API has been exceeded and the plan and billing details should be checked.
  \<open>RateLimited\<close> says that the API usage limit has been reached and to try again after a
  while; it opens with \<open>API\<close> and U+5229 U+7528 U+5236 U+9650. \<open>Forbidden\<close> says that API
  access was refused and the permissions of the API key should be checked.
\<close>

definition NotConfigured :: js_error where
  "NotConfigured = Error (js ''OpenAI API key not set'')"

definition InvalidCredential :: js_error where
  "InvalidCredential = Error [0x41, 0x50, 0x49, 0x30AD, 0x30FC, 0x304C, 0x7121, 0x52B9, 0x3067,
      0x3059, 0x3002, 0x6B63, 0x3057, 0x3044, 0x4F, 0x70, 0x65, 0x6E, 0x41, 0x49, 0x20, 0x41,
      0x50, 0x49, 0x30AD, 0x30FC, 0x3092, 0x8A2D, 0x5B9A, 0x3057, 0x3066, 0x304F, 0x3060,
      0x3055, 0x3044, 0x3002]"

definition QuotaExceeded :: js_error where
  "QuotaExceeded = Error [0x4F, 0x70, 0x65, 0x6E, 0x41, 0x49, 0x20, 0x41, 0x50, 0x49, 0x306E,
      0x5229, 0x7528, 0x67A0, 0x3092, 0x8D85, 0x904E, 0x3057, 0x307E, 0x3057, 0x305F, 0x3002,
      0x30D7, 0x30E9, 0x30F3, 0x3068, 0x8ACB, 0x6C42, 0x8A73, 0x7D30, 0x3092, 0x78BA, 0x8A8D,
      0x3057, 0x3066, 0x304F, 0x3060, 0x3055, 0x3044, 0x3002]"

definition RateLimited :: js_error where
  "RateLimited = Error [0x41, 0x50, 0x49, 0x5229, 0x7528, 0x5236, 0x9650, 0x306B, 0x9054,
      0x3057, 0x307E, 0x3057, 0x305F, 0x3002, 0x3057, 0x3070, 0x3089, 0x304F, 0x5F85, 0x3063,
      0x3066, 0x304B, 0x3089, 0x518D, 0x8A66, 0x884C, 0x3057, 0x3066, 0x304F, 0x3060, 0x3055,
      0x3044, 0x3002]"

definition Forbidden :: js_error where
  "Forbidden = Error [0x41, 0x50, 0x49, 0x30A2, 0x30AF, 0x30BB, 0x30B9, 0x304C, 0x62D2, 0x5426,
      0x3055, 0x308C, 0x307E, 0x3057, 0x305F, 0x3002, 0x41, 0x50, 0x49, 0x30AD, 0x30FC, 0x306E,
      0x6A29, 0x9650, 0x3092, 0x78BA, 0x8A8D, 0x3057, 0x3066, 0x304F, 0x3060, 0x3055, 0x3044,
      0x3002]"

text \<open>The template \<open>API error: ${response.status} - ${errorData.error?.message || 'Unknown error'}\<close>.\<close>

definition UpstreamError :: "engine \<Rightarrow> nat \<Rightarrow> jsval \<Rightarrow> js_error" where
  "UpstreamError eng st msg =
     Error ((js ''API error: '') @ show_nat st @ (js '' - '')
            @ ToString eng (or_else msg (JStr (js ''Unknown error''))))"

text \<open>\<open>data.choices[0].message.content\<close>; \<open>None\<close> is the \<open>TypeError\<close> of a read on
  \<open>null\<close> or \<open>undefined\<close> on the way.\<close>

definition message_content :: "jsval \<Rightarrow> jsval option" where
  "message_content data =
     (case get_prop data (js ''choices'') of
        None \<Rightarrow> None
      | Some choices \<Rightarrow>
          (case elem0 choices of
             None \<Rightarrow> None
           | Some choice \<Rightarrow>
               (case get_prop choice (js ''message'') of
                  None \<Rightarrow> None
                | Some msg \<Rightarrow> get_prop msg (js ''content''))))"

text \<open>
  The inner \<open>try\<close>: \<open>JSON.parse(content)\<close> (of the content converted to a string), then
  the three fields with their defaults. Its \<open>catch\<close> takes the \<open>SyntaxError\<close> of the
  parse and also the \<open>TypeError\<close> of reading a field of \<open>null\<close>.
\<close>

text \<open>The filler explanation is \<open>GPT-4\<close> followed by five Japanese characters
  (an answer by GPT-4).\<close>

definition raw_answer :: "jsval \<Rightarrow> analysis" where
  "raw_answer content =
     \<lparr>ans_answer = content, ans_explanation = JStr [0x47, 0x50, 0x54, 0x2D, 0x34, 0x306B,
         0x3088, 0x308B, 0x56DE, 0x7B54], ans_confidence = JNum 0.8\<rparr>"

definition parse_answer :: "engine \<Rightarrow> jsval \<Rightarrow> analysis" where
  "parse_answer eng content =
     (case JSON_parse (ToString eng content) of
        None \<Rightarrow> raw_answer content
      | Some parsed \<Rightarrow>
          (case get_prop parsed (js ''answer'') of
             None \<Rightarrow> raw_answer content
           | Some a \<Rightarrow>
               \<lparr>ans_answer = or_else a (JStr (js ''No answer provided'')),
                ans_explanation =
                  or_else (opt_prop parsed (js ''explanation''))
                    (JStr (js ''No explanation provided'')),
                ans_confidence = or_else (opt_prop parsed (js ''confidence'')) (JNum 0.5)\<rparr>))"

text \<open>
  \<open>analyzeText\<close>, given what \<open>fetch\<close> does (it rejects, or answers). The outer
  \<open>catch\<close> logs and throws the same error again.
\<close>

definition analyzeText ::
  "engine \<Rightarrow> openai_service \<Rightarrow> jsstring \<Rightarrow> js_error + http_response \<Rightarrow> js_error + analysis" where
  "analyzeText eng svc txt fetched =
     (if service_apiKey svc = [] then Inl NotConfigured
      else
        case fetched of
          Inl e \<Rightarrow> Inl e
        | Inr response \<Rightarrow>
            if \<not> ok response then
              (case body response of
                 Inl m \<Rightarrow> Inl (SyntaxError m)
               | Inr errorData \<Rightarrow>
                   if status response = 401 then Inl InvalidCredential
                   else if status response = 429 then
                     (case get_prop errorData (js ''error'') of
                        None \<Rightarrow> Inl (TypeError (typeErrorMessage eng))
                      | Some err \<Rightarrow>
                          if opt_prop err (js ''code'') = JStr (js ''insufficient_quota'')
                          then Inl QuotaExceeded
                          else Inl RateLimited)
                   else if status response = 403 then Inl Forbidden
                   else
                     (case get_prop errorData (js ''error'') of
                        None \<Rightarrow> Inl (TypeError (typeErrorMessage eng))
                      | Some err \<Rightarrow>
                          Inl (UpstreamError eng (status response) (opt_prop err (js ''message'')))))
            else
              (case body response of
                 Inl m \<Rightarrow> Inl (SyntaxError m)
               | Inr data \<Rightarrow>
                   (case message_content data of
                      None \<Rightarrow> Inl (TypeError (typeErrorMessage eng))
                    | Some content \<Rightarrow> Inr (parse_answer eng content))))"

section \<open>Capture orchestrator: \<open>CameraViewComponent\<close>\<close>

text \<open>
  The state of the component that the capture pipeline touches: the React state
  \<open>isProcessing\<close>, \<open>realtimeEnabled\<close> and \<open>lastProcessTime\<close>, and the refs \<open>cameraRef\<close>
  (whether a camera is mounted), \<open>processingRef\<close> and \<open>intervalRef\<close>. The callback given to
  \<open>setInterval\<close> is a closure of the render that created it: it sees the values
  \<open>isProcessing\<close> and \<open>lastProcessTime\<close> had in that render, and the refs as they are
  now. \<open>intervalRef\<close> holds those captured values while the timer runs.
\<close>

record render =
  r_isProcessing :: bool
  r_lastProcessTime :: nat

record camera_view =
  isProcessing :: bool
  realtimeEnabled :: bool
  lastProcessTime :: nat
  cameraRef :: bool
  processingRef :: bool
  intervalRef :: "render option"

record world =
  view :: camera_view
  recognizer :: ocr_service
  client :: openai_service

definition startRealtimeProcessing :: "camera_view \<Rightarrow> camera_view" where
  "startRealtimeProcessing v =
     (if intervalRef v \<noteq> None then v
      else v\<lparr>intervalRef :=
             Some \<lparr>r_isProcessing = isProcessing v, r_lastProcessTime = lastProcessTime v\<rparr>\<rparr>)"

definition stopRealtimeProcessing :: "camera_view \<Rightarrow> camera_view" where
  "stopRealtimeProcessing v = v\<lparr>intervalRef := None\<rparr>"

text \<open>The effect on \<open>[realtimeEnabled]\<close>: when the flag has changed, the cleanup of the
  previous run stops the timer, then the timer is started if the flag is set.\<close>

definition realtime_effect :: "bool \<Rightarrow> camera_view \<Rightarrow> camera_view" where
  "realtime_effect before v =
     (if realtimeEnabled v = before then v
      else if realtimeEnabled v then startRealtimeProcessing (stopRealtimeProcessing v)
      else stopRealtimeProcessing (stopRealtimeProcessing v))"

text \<open>The test on the recognized text before it is sent on: U+FF1F and U+FF1D are the
  full-width question mark and equals sign, and \<open>/\d+/.test\<close> finds a digit \<open>0\<close> to \<open>9\<close>.\<close>

definition question_like :: "jsstring \<Rightarrow> bool" where
  "question_like t =
     (t \<noteq> [] \<and> length t > 10 \<and>
      (includes_js t (js ''?'') \<or> includes_js t [0xFF1F]
       \<or> includes_js t (js ''='') \<or> includes_js t [0xFF1D]
       \<or> list_ex is_digit t))"

subsection \<open>\<open>processCurrentFrame\<close>, from one \<open>await\<close> to the next\<close>

text \<open>
  Up to the first \<open>await\<close>: the two early returns, then the guard is taken and the
  time noted. \<open>None\<close> is an early return.
\<close>

definition begin_frame :: "render \<Rightarrow> nat \<Rightarrow> camera_view \<Rightarrow> camera_view option" where
  "begin_frame cl now v =
     (if \<not> cameraRef v \<or> processingRef v then None
      else if int now - int (r_lastProcessTime cl) < 2000 then None
      else Some (v\<lparr>processingRef := True, lastProcessTime := now\<rparr>))"

text \<open>How a stretch of the \<open>try\<close> block ends: at the next \<open>await\<close>, by a throw, or by
  leaving the block.\<close>

datatype 'a segment = Next 'a | Thrown js_error | Returned

text \<open>After \<open>takePictureAsync\<close>: the photo's \<open>uri\<close>, if there is a photo and it has one.\<close>

definition after_photo :: "js_error + jsstring option \<Rightarrow> jsstring segment" where
  "after_photo p =
     (case p of
        Inl e \<Rightarrow> Thrown e
      | Inr None \<Rightarrow> Returned
      | Inr (Some uri) \<Rightarrow> if uri = [] then Returned else Next uri)"

text \<open>After \<open>recognizeText\<close>: a text that passes the test is sent to the completion client,
  with the credential the client holds at that moment.\<close>

definition after_ocr ::
  "ocr_env \<Rightarrow> jsstring \<Rightarrow> world \<Rightarrow> (ocr_output \<times> openai_service) segment \<times> world \<times> effect list" where
  "after_ocr env uri w =
     (let (r, svc) = recognizeText env (recognizer w) uri False;
          w1 = w\<lparr>recognizer := svc\<rparr>
      in case r of
           Inl e \<Rightarrow> (Thrown e, w1, [])
         | Inr out \<Rightarrow>
             if question_like (rec_text out) then
               (Next (out, client w1),
                w1\<lparr>view := (view w1)\<lparr>isProcessing := True\<rparr>\<rparr>,
                [Analyze (rec_text out)])
             else (Returned, w1, []))"

record completion_env =
  js_engine :: engine
  fetch_result :: "js_error + http_response"
  ocr_id_clock :: nat
  ocr_time :: nat
  ai_id_clock :: nat
  ai_time :: nat

text \<open>After \<open>analyzeText\<close>: the result goes to \<open>onResult\<close> and periodic mode is switched off.\<close>

definition after_ai ::
  "completion_env \<Rightarrow> ocr_output \<times> openai_service \<Rightarrow> world \<Rightarrow> unit segment \<times> world \<times> effect list" where
  "after_ai env sent w =
     (case analyzeText (js_engine env) (snd sent) (rec_text (fst sent)) (fetch_result env) of
        Inl e \<Rightarrow> (Thrown e, w, [])
      | Inr ai \<Rightarrow>
          (Returned,
           w\<lparr>view := (view w)\<lparr>realtimeEnabled := False\<rparr>\<rparr>,
           [OnResult
              \<lparr>ocr_id = show_nat (ocr_id_clock env), ocr_text = rec_text (fst sent),
               ocr_confidence = rec_confidence (fst sent), ocr_timestamp = ocr_time env\<rparr>
              \<lparr>ai_id = show_nat (ai_id_clock env), question = rec_text (fst sent),
               answer = ans_answer ai, explanation = ans_explanation ai,
               ai_confidence = ans_confidence ai, ai_timestamp = ai_time env\<rparr>]))"

text \<open>
  The \<open>catch\<close> block: the error is logged; an error whose message contains one of two
  phrases is shown in an alert (titled API error, in Japanese) and switches periodic
  mode off. The phrases are \<open>API\<close> with U+5229 U+7528 U+5236 U+9650 (API usage limit), the
  opening of the message of \<open>RateLimited\<close>, and \<open>API\<close> with U+30AD U+30FC U+304C U+7121
  U+52B9 (the API key is invalid), the opening of the message of \<open>InvalidCredential\<close>.
\<close>

definition stops_realtime :: "js_error \<Rightarrow> bool" where
  "stops_realtime e =
     (includes_js (message e) [0x41, 0x50, 0x49, 0x5229, 0x7528, 0x5236, 0x9650]
      \<or> includes_js (message e) [0x41, 0x50, 0x49, 0x30AD, 0x30FC, 0x304C, 0x7121, 0x52B9])"

definition catch_frame :: "js_error \<Rightarrow> world \<Rightarrow> world \<times> effect list" where
  "catch_frame e w =
     (if stops_realtime e then
        (w\<lparr>view := (view w)\<lparr>realtimeEnabled := False\<rparr>\<rparr>,
         [ConsoleError e, Alert [0x41, 0x50, 0x49, 0x20, 0x30A8, 0x30E9, 0x30FC] (message e)])
      else (w, [ConsoleError e]))"

text \<open>The \<open>finally\<close> block gives the guard back.\<close>

definition finally_frame :: "world \<Rightarrow> world" where
  "finally_frame w = w\<lparr>view := (view w)\<lparr>processingRef := False, isProcessing := False\<rparr>\<rparr>"

text \<open>Leaving the \<open>try\<close> block, by a throw (\<open>Some e\<close>) or not.\<close>

definition leave_frame :: "js_error option \<Rightarrow> world \<Rightarrow> world \<times> effect list" where
  "leave_frame thrown w =
     (case thrown of
        None \<Rightarrow> (finally_frame w, [])
      | Some e \<Rightarrow> (finally_frame (fst (catch_frame e w)), snd (catch_frame e w)))"

text \<open>One whole run, when nothing else happens in between.\<close>

record frame_env =
  clock :: nat
  photo :: "js_error + jsstring option"
  recognition :: ocr_env
  completion :: completion_env

definition run_frame :: "frame_env \<Rightarrow> world \<Rightarrow> world \<times> effect list" where
  "run_frame env w =
     (case after_photo (photo env) of
        Thrown e \<Rightarrow> leave_frame (Some e) w
      | Returned \<Rightarrow> leave_frame None w
      | Next uri \<Rightarrow>
          (case after_ocr (recognition env) uri w of
             (Thrown e, w1, fx) \<Rightarrow> (fst (leave_frame (Some e) w1), fx @ snd (leave_frame (Some e) w1))
           | (Returned, w1, fx) \<Rightarrow> (fst (leave_frame None w1), fx)
           | (Next sent, w1, fx) \<Rightarrow>
               (case after_ai (completion env) sent w1 of
                  (Thrown e, w2, fx2) \<Rightarrow>
                    (fst (leave_frame (Some e) w2), fx @ fx2 @ snd (leave_frame (Some e) w2))
                | (_, w2, fx2) \<Rightarrow> (fst (leave_frame None w2), fx @ fx2))))"

definition processCurrentFrame :: "render \<Rightarrow> frame_env \<Rightarrow> world \<Rightarrow> world \<times> effect list" where
  "processCurrentFrame cl env w =
     (case begin_frame cl (clock env) (view w) of
        None \<Rightarrow> (w, [])
      | Some v \<Rightarrow> run_frame env (w\<lparr>view := v\<rparr>))"

subsection \<open>\<open>takePictureAndAnalyze\<close>: the capture button\<close>

definition begin_manual :: "camera_view \<Rightarrow> camera_view option" where
  "begin_manual v =
     (if \<not> cameraRef v \<or> isProcessing v then None else Some (v\<lparr>isProcessing := True\<rparr>))"

text \<open>The \<open>try\<close> block, with the error it throws if it throws one.\<close>

definition manual_body :: "frame_env \<Rightarrow> world \<Rightarrow> js_error option \<times> world \<times> effect list" where
  "manual_body env w =
     (case after_photo (photo env) of
        Thrown e \<Rightarrow> (Some e, w, [])
      | Returned \<Rightarrow> (None, w, [Alert [0x30A8, 0x30E9, 0x30FC] [0x5199, 0x771F,
          0x306E, 0x64AE, 0x5F71, 0x306B, 0x5931, 0x6557, 0x3057, 0x307E, 0x3057, 0x305F]])
      | Next uri \<Rightarrow>
          (let (r, svc) = recognizeText (recognition env) (recognizer w) uri False;
               w1 = w\<lparr>recognizer := svc\<rparr>
           in case r of
                Inl e \<Rightarrow> (Some e, w1, [])
              | Inr out \<Rightarrow>
                  if rec_text out = [] \<or> length (rec_text out) < 2 then
                    (None, w1,
                     [Alert [0x30A8, 0x30E9, 0x30FC] [0x30C6, 0x30AD, 0x30B9, 0x30C8, 0x304C,
                         0x691C, 0x51FA, 0x3055, 0x308C, 0x307E, 0x305B, 0x3093, 0x3067, 0x3057,
                         0x305F, 0x3002, 0x3082, 0x3046, 0x4E00, 0x5EA6, 0x304A, 0x8A66, 0x3057,
                         0x304F, 0x3060, 0x3055, 0x3044, 0x3002]])
                  else
                    (case analyzeText (js_engine (completion env)) (client w1) (rec_text out)
                            (fetch_result (completion env)) of
                       Inl e \<Rightarrow> (Some e, w1, [Analyze (rec_text out)])
                     | Inr ai \<Rightarrow>
                         (None, w1,
                          [Analyze (rec_text out),
                           OnResult
                             \<lparr>ocr_id = show_nat (ocr_id_clock (completion env)),
                              ocr_text = rec_text out, ocr_confidence = rec_confidence out,
                              ocr_timestamp = ocr_time (completion env)\<rparr>
                             \<lparr>ai_id = show_nat (ai_id_clock (completion env)),
                              question = rec_text out, answer = ans_answer ai,
                              explanation = ans_explanation ai,
                              ai_confidence = ans_confidence ai,
                              ai_timestamp = ai_time (completion env)\<rparr>]))))"

text \<open>The rest of \<open>takePictureAndAnalyze\<close> once the button press has been accepted: the
  \<open>try\<close> block, the \<open>catch\<close> with its alert, and the \<open>finally\<close>.\<close>

definition finish_manual :: "frame_env \<Rightarrow> world \<Rightarrow> world \<times> effect list" where
  "finish_manual env w =
     (case manual_body env w of
        (thrown, w1, fx) \<Rightarrow>
          (w1\<lparr>view := (view w1)\<lparr>isProcessing := False\<rparr>\<rparr>,
           (case thrown of
              None \<Rightarrow> fx
            | Some e \<Rightarrow>
                fx @ [ConsoleError e,
                      Alert [0x30A8, 0x30E9, 0x30FC] [0x89E3, 0x6790, 0x306B, 0x5931, 0x6557,
                          0x3057, 0x307E, 0x3057, 0x305F, 0x3002, 0x3082, 0x3046, 0x4E00,
                          0x5EA6, 0x304A, 0x8A66, 0x3057, 0x304F, 0x3060, 0x3055, 0x3044,
                          0x3002]])))"

definition takePictureAndAnalyze :: "frame_env \<Rightarrow> world \<Rightarrow> world \<times> effect list" where
  "takePictureAndAnalyze env w =
     (case begin_manual (view w) of
        None \<Rightarrow> (w, [])
      | Some v \<Rightarrow> finish_manual env (w\<lparr>view := v\<rparr>))"

subsection \<open>The timer and the runs in flight\<close>

text \<open>
  The event loop runs one callback at a time, to its next \<open>await\<close>. A run of
  \<open>processCurrentFrame\<close> that has reached an \<open>await\<close> is in flight, waiting for the photo,
  for the recognition or for the completion. A capture started with the button is in
  flight from the press to its \<open>finally\<close>.
\<close>

datatype stage =
    AwaitPhoto
  | AwaitOCR jsstring
  | AwaitAI "ocr_output \<times> openai_service"

record orchestrator =
  world :: world
  runs :: "stage list"
  manual_runs :: nat
  shown :: "effect list"

datatype event =
    Tick nat
  | PhotoDone nat "js_error + jsstring option"
  | OcrDone nat ocr_env
  | AiDone nat completion_env
  | ToggleRealtime
  | ManualPress
  | ManualDone frame_env

text \<open>The callback of \<open>setInterval\<close>.\<close>

definition interval_tick :: "render \<Rightarrow> nat \<Rightarrow> camera_view \<Rightarrow> camera_view option" where
  "interval_tick cl now v =
     (if \<not> processingRef v \<and> \<not> r_isProcessing cl then begin_frame cl now v else None)"

definition drop_run :: "nat \<Rightarrow> stage list \<Rightarrow> stage list" where
  "drop_run i rs = take i rs @ drop (Suc i) rs"

text \<open>A run goes on to its next stage, or ends; after a change of \<open>realtimeEnabled\<close> the
  effect starts or stops the timer.\<close>

definition advance ::
  "orchestrator \<Rightarrow> nat \<Rightarrow> 'a segment \<times> world \<times> effect list \<Rightarrow> ('a \<Rightarrow> stage) \<Rightarrow> orchestrator" where
  "advance orc i r to_stage =
     (case r of
        (Next x, w, fx) \<Rightarrow>
          orc\<lparr>world := w, runs := (runs orc)[i := to_stage x], shown := shown orc @ fx\<rparr>
      | (Thrown e, w, fx) \<Rightarrow>
          (let (w', fx') = leave_frame (Some e) w
           in orc\<lparr>world := w'\<lparr>view := realtime_effect (realtimeEnabled (view (world orc))) (view w')\<rparr>,
                  runs := drop_run i (runs orc), shown := shown orc @ fx @ fx'\<rparr>)
      | (Returned, w, fx) \<Rightarrow>
          (let (w', fx') = leave_frame None w
           in orc\<lparr>world := w'\<lparr>view := realtime_effect (realtimeEnabled (view (world orc))) (view w')\<rparr>,
                  runs := drop_run i (runs orc), shown := shown orc @ fx @ fx'\<rparr>))"

fun step :: "orchestrator \<Rightarrow> event \<Rightarrow> orchestrator" where
  "step orc (Tick now) =
     (case intervalRef (view (world orc)) of
        None \<Rightarrow> orc
      | Some cl \<Rightarrow>
          (case interval_tick cl now (view (world orc)) of
             None \<Rightarrow> orc
           | Some v \<Rightarrow> orc\<lparr>world := (world orc)\<lparr>view := v\<rparr>, runs := runs orc @ [AwaitPhoto]\<rparr>))"
| "step orc (PhotoDone i p) =
     (if i < length (runs orc) \<and> runs orc ! i = AwaitPhoto
      then advance orc i (after_photo p, world orc, []) AwaitOCR
      else orc)"
| "step orc (OcrDone i env) =
     (if i < length (runs orc) then
        (case runs orc ! i of
           AwaitOCR uri \<Rightarrow> advance orc i (after_ocr env uri (world orc)) AwaitAI
         | _ \<Rightarrow> orc)
      else orc)"
| "step orc (AiDone i env) =
     (if i < length (runs orc) then
        (case runs orc ! i of
           AwaitAI sent \<Rightarrow> advance orc i (after_ai env sent (world orc)) (\<lambda>_. AwaitPhoto)
         | _ \<Rightarrow> orc)
      else orc)"
| "step orc ToggleRealtime =
     (let v = view (world orc)
      in if isProcessing v then orc
         else orc\<lparr>world := (world orc)\<lparr>view :=
                realtime_effect (realtimeEnabled v) (v\<lparr>realtimeEnabled := \<not> realtimeEnabled v\<rparr>)\<rparr>\<rparr>)"
| "step orc ManualPress =
     (case begin_manual (view (world orc)) of
        None \<Rightarrow> orc
      | Some v \<Rightarrow> orc\<lparr>world := (world orc)\<lparr>view := v\<rparr>, manual_runs := Suc (manual_runs orc)\<rparr>)"
| "step orc (ManualDone env) =
     (if manual_runs orc = 0 then orc
      else
        (case finish_manual env (world orc) of
           (w, fx) \<Rightarrow>
             orc\<lparr>world := w, manual_runs := manual_runs orc - 1, shown := shown orc @ fx\<rparr>))"

definition steps :: "orchestrator \<Rightarrow> event list \<Rightarrow> orchestrator" where
  "steps orc es = foldl step orc es"

text \<open>The component as it is mounted: nothing in flight, the guard free.\<close>

definition mounted :: "orchestrator \<Rightarrow> bool" where
  "mounted orc = (runs orc = [] \<and> \<not> processingRef (view (world orc)))"

section \<open>Camera screen: \<open>handleResult\<close>\<close>

record camera_screen =
  currentResult :: "(OCRResult \<times> AIResponse) option"
  showResult :: bool

text \<open>The item built for a result: its id is \<open>Date.now().toString()\<close>.\<close>

definition new_item :: "nat \<Rightarrow> OCRResult \<Rightarrow> AIResponse \<Rightarrow> HistoryItem" where
  "new_item now ocr ai = \<lparr>item_id = show_nat now, ocrResult = ocr, aiResponse = ai\<rparr>"

text \<open>
  \<open>handleResult\<close> shows the result, then reads the stored history (an absent key is the
  empty list), puts the new item at index 0 (\<open>unshift\<close>), keeps \<open>slice(0, 20)\<close> and writes
  it back. A rejected read or write is caught and leaves the store as it was.
\<close>

definition handleResult ::
  "io \<Rightarrow> nat \<Rightarrow> camera_screen \<times> storage \<Rightarrow> OCRResult \<Rightarrow> AIResponse \<Rightarrow> camera_screen \<times> storage" where
  "handleResult env now s ocr ai =
     (let scr = (fst s)\<lparr>currentResult := Some (ocr, ai), showResult := True\<rparr>;
          st = snd s
      in if \<not> getItem_ok env then (scr, st)
         else
           let history = (case analysis_history st of None \<Rightarrow> [] | Some h \<Rightarrow> h);
               newItem = new_item now ocr ai;
               history = newItem # history;
               trimmedHistory = take 20 history
           in if setItem_ok env then (scr, st\<lparr>analysis_history := Some trimmedHistory\<rparr>)
              else (scr, st))"

text \<open>The history as the history screen loads it: nothing stored is the empty list.\<close>

definition stored_history :: "camera_screen \<times> storage \<Rightarrow> HistoryItem list" where
  "stored_history s = (case analysis_history (snd s) of None \<Rightarrow> [] | Some h \<Rightarrow> h)"

text \<open>A sequence of appends, each with its own clock value and store outcome.\<close>

fun appends ::
  "camera_screen \<times> storage \<Rightarrow> (io \<times> nat \<times> OCRResult \<times> AIResponse) list \<Rightarrow> camera_screen \<times> storage" where
  "appends s [] = s"
| "appends s ((env, now, ocr, ai) # rest) = appends (handleResult env now s ocr ai) rest"

section \<open>History screen\<close>

record history_screen =
  history_list :: "HistoryItem list"
  selectedItem :: "HistoryItem option"
  detailShown :: bool
  refreshing :: bool

text \<open>
  \<open>loadHistory\<close> puts the stored list into the screen when the key is present; with the
  key absent, or the read rejected, the screen keeps the list it has.
\<close>

definition loadHistory :: "io \<Rightarrow> history_screen \<times> storage \<Rightarrow> history_screen \<times> storage" where
  "loadHistory env s =
     (if \<not> getItem_ok env then s
      else
        (case analysis_history (snd s) of
           None \<Rightarrow> s
         | Some h \<Rightarrow> ((fst s)\<lparr>history_list := h\<rparr>, snd s)))"

text \<open>\<open>clearHistory\<close>, once confirmed: the key is removed, then the list on the screen is
  emptied; a rejected removal leaves both.\<close>

definition clearHistory :: "io \<Rightarrow> history_screen \<times> storage \<Rightarrow> history_screen \<times> storage" where
  "clearHistory env s =
     (if removeItem_ok env
      then ((fst s)\<lparr>history_list := []\<rparr>, (snd s)\<lparr>analysis_history := None\<rparr>)
      else s)"

text \<open>\<open>deleteItem\<close>, once confirmed: the list on the screen without the items of that id
  is shown, then written to the store.\<close>

definition deleteItem ::
  "io \<Rightarrow> jsstring \<Rightarrow> history_screen \<times> storage \<Rightarrow> history_screen \<times> storage" where
  "deleteItem env itemId s =
     (let updatedHistory = filter (\<lambda>item. item_id item \<noteq> itemId) (history_list (fst s));
          scr = (fst s)\<lparr>history_list := updatedHistory\<rparr>
      in if setItem_ok env then (scr, (snd s)\<lparr>analysis_history := Some updatedHistory\<rparr>)
         else (scr, snd s))"

section \<open>Settings screen\<close>

record settings_screen =
  apiKey :: jsstring
  showApiKey :: bool
  autoCapture :: bool
  saveHistory :: bool
  isLoading :: bool

definition initial_settings :: settings_screen where
  "initial_settings =
     \<lparr>apiKey = [], showApiKey = False, autoCapture = False, saveHistory = True, isLoading = False\<rparr>"

text \<open>
  \<open>loadSettings\<close> reads the three keys at once (\<open>Promise.all\<close>); a stored credential
  that is not the empty string goes into the text field and into the completion client.
  A stored flag is the text \<open>true\<close> or \<open>false\<close>, never an empty string.
\<close>

definition loadSettings ::
  "io \<Rightarrow> settings_screen \<times> storage \<times> openai_service \<Rightarrow> settings_screen \<times> storage \<times> openai_service" where
  "loadSettings env s =
     (case s of (scr, st, svc) \<Rightarrow>
        if \<not> getItem_ok env then s
        else
          let (scr1, svc1) =
                (case openai_api_key st of
                   None \<Rightarrow> (scr, svc)
                 | Some k \<Rightarrow> if k \<noteq> [] then (scr\<lparr>apiKey := k\<rparr>, setApiKey k svc) else (scr, svc));
              scr2 = (case auto_capture st of None \<Rightarrow> scr1 | Some b \<Rightarrow> scr1\<lparr>autoCapture := b\<rparr>);
              scr3 = (case save_history st of None \<Rightarrow> scr2 | Some b \<Rightarrow> scr2\<lparr>saveHistory := b\<rparr>)
          in (scr3, st, svc1))"

text \<open>\<open>saveApiKey\<close> checks the text field, then stores its trimmed value.\<close>

definition saveApiKey ::
  "io \<Rightarrow> settings_screen \<times> storage \<times> openai_service
      \<Rightarrow> (settings_screen \<times> storage \<times> openai_service) \<times> effect list" where
  "saveApiKey env s =
     (case s of (scr, st, svc) \<Rightarrow>
        if trim (apiKey scr) = [] then (s, [Alert [0x30A8, 0x30E9, 0x30FC] [0x41, 0x50, 0x49,
            0x30AD, 0x30FC, 0x3092, 0x5165, 0x529B, 0x3057, 0x3066, 0x304F, 0x3060, 0x3055,
            0x3044]])
        else if \<not> startsWith (apiKey scr) (js ''sk-'') then
          (s, [Alert [0x30A8, 0x30E9, 0x30FC] [0x6B63, 0x3057, 0x3044, 0x4F, 0x70, 0x65, 0x6E,
              0x41, 0x49, 0x20, 0x41, 0x50, 0x49, 0x30AD, 0x30FC, 0x3092, 0x5165, 0x529B,
              0x3057, 0x3066, 0x304F, 0x3060, 0x3055, 0x3044, 0xFF08, 0x73, 0x6B, 0x2D, 0x3067,
              0x59CB, 0x307E, 0x308B, 0xFF09]])
        else if setItem_ok env then
          ((scr\<lparr>isLoading := False\<rparr>,
            st\<lparr>openai_api_key := Some (trim (apiKey scr))\<rparr>,
            setApiKey (trim (apiKey scr)) svc),
           [Alert [0x6210, 0x529F] [0x41, 0x50, 0x49, 0x30AD, 0x30FC, 0x304C, 0x4FDD, 0x5B58,
               0x3055, 0x308C, 0x307E, 0x3057, 0x305F]])
        else
          ((scr\<lparr>isLoading := False\<rparr>, st, svc),
           [Alert [0x30A8, 0x30E9, 0x30FC] [0x41, 0x50, 0x49, 0x30AD, 0x30FC, 0x306E, 0x4FDD,
               0x5B58, 0x306B, 0x5931, 0x6557, 0x3057, 0x307E, 0x3057, 0x305F]]))"

definition toggleSaveHistory ::
  "io \<Rightarrow> bool \<Rightarrow> settings_screen \<times> storage \<Rightarrow> settings_screen \<times> storage" where
  "toggleSaveHistory env v s =
     (let scr = (fst s)\<lparr>saveHistory := v\<rparr>
      in if setItem_ok env then (scr, (snd s)\<lparr>save_history := Some v\<rparr>) else (scr, snd s))"

definition toggleAutoCapture ::
  "io \<Rightarrow> bool \<Rightarrow> settings_screen \<times> storage \<Rightarrow> settings_screen \<times> storage" where
  "toggleAutoCapture env v s =
     (let scr = (fst s)\<lparr>autoCapture := v\<rparr>
      in if setItem_ok env then (scr, (snd s)\<lparr>auto_capture := Some v\<rparr>) else (scr, snd s))"

section \<open>\<open>JSON.parse\<close>: every parser consumes input\<close>

lemma take_literal_shorter: "p \<noteq> [] \<Longrightarrow> take_literal p s = Some r \<Longrightarrow> length r < length s"
  by (auto simp: take_literal_def prefix_def split: if_splits)

lemma parse_int_part_shorter: "parse_int_part s = Some (n, r) \<Longrightarrow> length r < length s"
proof -
  assume a: "parse_int_part s = Some (n, r)"
  then obtain c cs where s: "s = c # cs"
    by (cases s) (auto simp: parse_int_part_def)
  show ?thesis
  proof (cases "c = 0x30")
    case True
    with a s show ?thesis by (simp add: parse_int_part_def)
  next
    case False
    with a s have d: "is_digit c" and r: "r = dropWhile is_digit s"
      by (auto simp: parse_int_part_def split: if_splits)
    from d s have "r = dropWhile is_digit cs"
      using r by simp
    then have "length r \<le> length cs"
      by (simp add: length_dropWhile_le)
    with s show ?thesis by simp
  qed
qed

lemma parse_fraction_le: "parse_fraction s = Some (f, r) \<Longrightarrow> length r \<le> length s"
  by (cases s) (auto simp: parse_fraction_def Let_def length_dropWhile_le le_SucI split: if_splits)

lemma parse_exponent_le: "parse_exponent s = Some (e, r) \<Longrightarrow> length r \<le> length s"
proof (cases s)
  case Nil
  assume "parse_exponent s = Some (e, r)"
  with Nil show ?thesis by (simp add: parse_exponent_def)
next
  case (Cons c cs)
  assume a: "parse_exponent s = Some (e, r)"
  show ?thesis
  proof (cases "c = 0x65 \<or> c = 0x45")
    case False
    with a Cons show ?thesis by (auto simp: parse_exponent_def)
  next
    case True
    have "\<exists>t. r = dropWhile is_digit t \<and> length t \<le> length cs"
      using a Cons True
      by (auto simp: parse_exponent_def Let_def split: if_splits list.splits prod.splits)
    then obtain t where "r = dropWhile is_digit t" "length t \<le> length cs"
      by blast
    then have "length r \<le> length cs"
      using length_dropWhile_le [of is_digit t] by simp
    with Cons show ?thesis by simp
  qed
qed

lemma parse_number_shorter: "parse_number s = Some (v, r) \<Longrightarrow> length r < length s"
proof -
  assume a: "parse_number s = Some (v, r)"
  obtain neg s1 where ns: "(case s of c # cs \<Rightarrow> if c = 0x2D then (True, cs) else (False, s)
                       | [] \<Rightarrow> (False, s)) = (neg, s1)"
    by (cases "(case s of c # cs \<Rightarrow> if c = 0x2D then (True, cs) else (False, s)
                       | [] \<Rightarrow> (False, s))") auto
  then have l1: "length s1 \<le> length s"
    by (auto split: list.splits if_splits)
  from a ns obtain n s2 f s3 e where
    i: "parse_int_part s1 = Some (n, s2)" and
    f: "parse_fraction s2 = Some (f, s3)" and
    e: "parse_exponent s3 = Some (e, r)"
    by (auto simp: parse_number_def split: option.splits prod.splits)
  from parse_int_part_shorter [OF i] parse_fraction_le [OF f] parse_exponent_le [OF e] l1
  show ?thesis by simp
qed

lemma parse_shorter:
  "(\<forall>v r. parse_value s = Some (v, r) \<longrightarrow> length r < length s)"
  "(\<forall>vs r. parse_elements s1 = Some (vs, r) \<longrightarrow> length r < length s1)"
  "(\<forall>kvs r. parse_members s2 = Some (kvs, r) \<longrightarrow> length r < length s2)"
proof (induction s and s1 and s2 rule: parse_value_parse_elements_parse_members.induct)
  case (1 s)
  show ?case
  proof (intro allI impI)
    fix v r
    assume a: "parse_value s = Some (v, r)"
    then obtain c cs where sk: "skip_ws s = c # cs"
      by (cases "skip_ws s") (auto simp: parse_value.simps)
    have lcs: "length cs < length s"
      using sk by (rule skip_ws_Cons_shorter)
    consider (obj) "c = 0x7B" | (arr) "c \<noteq> 0x7B" "c = 0x5B" | (str) "c \<noteq> 0x7B" "c \<noteq> 0x5B" "c = 0x22"
      | (lit) "c \<noteq> 0x7B" "c \<noteq> 0x5B" "c \<noteq> 0x22" "c = 0x6E \<or> c = 0x74 \<or> c = 0x66"
      | (num) "c \<noteq> 0x7B" "c \<noteq> 0x5B" "c \<noteq> 0x22" "c \<noteq> 0x6E" "c \<noteq> 0x74" "c \<noteq> 0x66"
      by blast
    then have "length r \<le> length cs"
    proof cases
      case obj
      show ?thesis
      proof (cases "skip_ws cs")
        case Nil
        with a sk obj show ?thesis by (simp add: parse_value.simps)
      next
        case (Cons d ds)
        show ?thesis
        proof (cases "d = 0x7D")
          case True
          with a sk obj Cons have "r = ds" by (simp add: parse_value.simps)
          with skip_ws_Cons_shorter [OF Cons] show ?thesis by simp
        next
          case False
          with a sk obj Cons obtain kvs where "parse_members cs = Some (kvs, r)"
            by (auto simp: parse_value.simps split: option.splits)
          with "1.IH"(1) [OF sk obj Cons False] show ?thesis by auto
        qed
      qed
    next
      case arr
      show ?thesis
      proof (cases "skip_ws cs")
        case Nil
        with a sk arr show ?thesis by (simp add: parse_value.simps)
      next
        case (Cons d ds)
        show ?thesis
        proof (cases "d = 0x5D")
          case True
          with a sk arr Cons have "r = ds" by (simp add: parse_value.simps)
          with skip_ws_Cons_shorter [OF Cons] show ?thesis by simp
        next
          case False
          with a sk arr Cons obtain vs where "parse_elements cs = Some (vs, r)"
            by (auto simp: parse_value.simps split: option.splits)
          with "1.IH"(2) [OF sk arr(1) arr(2) Cons False] show ?thesis by auto
        qed
      qed
    next
      case str
      with a sk obtain t where "parse_string_chars cs = Some (t, r)"
        by (auto simp: parse_value.simps split: option.splits)
      from parse_string_chars_shorter [OF this] show ?thesis by simp
    next
      case lit
      with a sk have "\<exists>p. p \<noteq> [] \<and> take_literal p (c # cs) = Some r"
        by (auto simp: parse_value.simps js_def split: option.splits if_splits)
      then obtain p where "p \<noteq> []" "take_literal p (c # cs) = Some r" by blast
      from take_literal_shorter [OF this] show ?thesis by simp
    next
      case num
      with a sk have "parse_number (c # cs) = Some (v, r)"
        by (simp add: parse_value.simps)
      from parse_number_shorter [OF this] show ?thesis by simp
    qed
    with lcs show "length r < length s" by simp
  qed
next
  case (2 s)
  show ?case
  proof (intro allI impI)
    fix vs r
    assume a: "parse_elements s = Some (vs, r)"
    then obtain v r0 where pv: "parse_value s = Some (v, r0)"
      by (cases "parse_value s") (auto simp: parse_elements.simps)
    with "2.IH"(1) have l0: "length r0 < length s" by simp
    from a pv obtain c cs where sk: "skip_ws r0 = c # cs"
      by (cases "skip_ws r0") (auto simp: parse_elements.simps)
    have lcs: "length cs < length r0"
      using sk by (rule skip_ws_Cons_shorter)
    show "length r < length s"
    proof (cases "c = 0x5D")
      case True
      with a pv sk have "r = cs" by (simp add: parse_elements.simps)
      with lcs l0 show ?thesis by simp
    next
      case False
      with a pv sk have g: "c = 0x2C \<and> length cs < length s"
        by (auto simp: parse_elements.simps split: if_splits)
      with a pv sk False obtain vs' where "parse_elements cs = Some (vs', r)"
        by (auto simp: parse_elements.simps split: option.splits)
      with "2.IH"(2) [OF pv refl sk False g] have "length r < length cs" by simp
      with lcs l0 show ?thesis by simp
    qed
  qed
next
  case (3 s)
  show ?case
  proof (intro allI impI)
    fix kvs r
    assume a: "parse_members s = Some (kvs, r)"
    then obtain q s1 where sk: "skip_ws s = q # s1"
      by (cases "skip_ws s") (auto simp: parse_members.simps)
    from a sk have q: "\<not> q \<noteq> 0x22"
      by (auto simp: parse_members.simps split: if_splits)
    from a sk q obtain k s2 where ps: "parse_string_chars s1 = Some (k, s2)"
      by (cases "parse_string_chars s1") (auto simp: parse_members.simps)
    from a sk q ps obtain colon s3 where sk2: "skip_ws s2 = colon # s3"
      by (cases "skip_ws s2") (auto simp: parse_members.simps)
    from a sk q ps sk2 have col: "\<not> colon \<noteq> 0x3A"
      by (auto simp: parse_members.simps split: if_splits)
    from a sk q ps sk2 col obtain v r0 where pv: "parse_value s3 = Some (v, r0)"
      by (cases "parse_value s3") (auto simp: parse_members.simps)
    from a sk q ps sk2 col pv obtain c cs where sk3: "skip_ws r0 = c # cs"
      by (cases "skip_ws r0") (auto simp: parse_members.simps)
    have l3: "length s3 < length s"
      using skip_ws_Cons_shorter [OF sk] parse_string_chars_shorter [OF ps]
        skip_ws_Cons_shorter [OF sk2] by simp
    have l0: "length r0 < length s3"
      using "3.IH"(1) [OF sk q ps refl sk2 col] pv by simp
    have lcs: "length cs < length r0"
      using sk3 by (rule skip_ws_Cons_shorter)
    show "length r < length s"
    proof (cases "c = 0x7D")
      case True
      with a sk q ps sk2 col pv sk3 have "r = cs" by (simp add: parse_members.simps)
      with lcs l0 l3 show ?thesis by simp
    next
      case False
      with a sk q ps sk2 col pv sk3 have g: "c = 0x2C \<and> length cs < length s"
        by (auto simp: parse_members.simps split: if_splits)
      with a sk q ps sk2 col pv sk3 False obtain kvs' where "parse_members cs = Some (kvs', r)"
        by (auto simp: parse_members.simps split: option.splits)
      with "3.IH"(2) [OF sk q ps refl sk2 col pv refl sk3 False g] have "length r < length cs"
        by simp
      with lcs l0 l3 show ?thesis by simp
    qed
  qed
qed

lemma parse_elements_loop:
  "parse_elements s =
     (case parse_value s of
        None \<Rightarrow> None
      | Some (v, r) \<Rightarrow>
          (case skip_ws r of
             [] \<Rightarrow> None
           | c # cs \<Rightarrow>
               if c = 0x5D then Some ([v], cs)
               else if c = 0x2C then
                 (case parse_elements cs of
                    None \<Rightarrow> None
                  | Some (vs, r') \<Rightarrow> Some (v # vs, r'))
               else None))"
proof (cases "parse_value s")
  case None
  then show ?thesis by (simp add: parse_elements.simps)
next
  case (Some p)
  obtain v r where p: "p = (v, r)" by (cases p)
  from Some p parse_shorter(1) [of s] have l: "length r < length s" by simp
  show ?thesis
  proof (cases "skip_ws r")
    case Nil
    with Some p show ?thesis by (simp add: parse_elements.simps)
  next
    case (Cons c cs)
    from skip_ws_Cons_shorter [OF Cons] l have "length cs < length s" by simp
    with Some p Cons show ?thesis by (simp add: parse_elements.simps)
  qed
qed

lemma parse_members_loop:
  "parse_members s =
     (case skip_ws s of
        [] \<Rightarrow> None
      | q # s1 \<Rightarrow>
          if q \<noteq> 0x22 then None
          else
            (case parse_string_chars s1 of
               None \<Rightarrow> None
             | Some (k, s2) \<Rightarrow>
                 (case skip_ws s2 of
                    [] \<Rightarrow> None
                  | colon # s3 \<Rightarrow>
                      if colon \<noteq> 0x3A then None
                      else
                        (case parse_value s3 of
                           None \<Rightarrow> None
                         | Some (v, r) \<Rightarrow>
                             (case skip_ws r of
                                [] \<Rightarrow> None
                              | c # cs \<Rightarrow>
                                  if c = 0x7D then Some ([(k, v)], cs)
                                  else if c = 0x2C then
                                    (case parse_members cs of
                                       None \<Rightarrow> None
                                     | Some (kvs, r') \<Rightarrow> Some ((k, v) # kvs, r'))
                                  else None)))))"
proof -
  have "length cs < length s"
    if "skip_ws s = q # s1" "parse_string_chars s1 = Some (k, s2)" "skip_ws s2 = colon # s3"
      "parse_value s3 = Some (v, r)" "skip_ws r = c # cs"
    for q s1 k s2 colon s3 v r c cs
    using skip_ws_Cons_shorter [OF that(1)] parse_string_chars_shorter [OF that(2)]
      skip_ws_Cons_shorter [OF that(3)] parse_shorter(1) [of s3] that(4)
      skip_ws_Cons_shorter [OF that(5)]
    by simp
  then show ?thesis
    by (subst parse_members.simps) (auto split: list.splits option.splits prod.splits)
qed


lemma JSON_parse_empty: "JSON_parse [] = None"
  by (simp add: JSON_parse_def parse_value.simps skip_ws_def)

text \<open>The definitions that evaluate \<open>JSON_parse\<close> on a given text.\<close>

lemmas parse_eval = JSON_parse_def parse_value.simps parse_elements.simps parse_members.simps
  skip_ws_def is_json_ws_def js_def parse_number_def parse_int_part_def parse_fraction_def
  parse_exponent_def json_number_def rounds_to_zero_def rounds_to_infinity_def digits_value_def
  is_digit_def take_literal_def hex_value_def simple_escape_def

text \<open>
  Number literals at the edges of the doubles: \<open>2e-324\<close> is below half of the least
  positive double and is the number 0, \<open>3e-324\<close> is above it and is not; the greatest
  finite double, written with 17 digits, is finite, and a literal past the half-way
  point to \<open>2^1024\<close> is \<open>Infinity\<close>.
\<close>

lemma number_literals_at_the_edges:
  "JSON_parse (js ''2e-324'') = Some (JNum 0)"
  "JSON_parse (js ''3e-324'') = Some (JNum (3 / 10 ^ 324))"
  "JSON_parse (js ''1e-400'') = Some (JNum 0)"
  "JSON_parse (js ''-0.0'') = Some (JNum 0)"
  "JSON_parse (js ''1.7976931348623157e308'') = Some (JNum (17976931348623157 * 10 ^ 292))"
  "JSON_parse (js ''1.7976931348623159e308'') = Some (JInf False)"
  "JSON_parse (js ''-1e400'') = Some (JInf True)"
  by (simp_all add: parse_eval)

section \<open>History store: the cap, the order and the save-history preference\<close>

lemma stored_history_handleResult_ok:
  "stored_history (handleResult io_ok now s ocr ai) = take 20 (new_item now ocr ai # stored_history s)"
  by (simp add: handleResult_def stored_history_def io_ok_def new_item_def Let_def)

lemma stored_history_handleResult_cases:
  "stored_history (handleResult env now s ocr ai) = stored_history s \<or>
   stored_history (handleResult env now s ocr ai) = take 20 (new_item now ocr ai # stored_history s)"
  by (simp add: handleResult_def stored_history_def new_item_def Let_def)

lemma handleResult_keeps_bound:
  "length (stored_history s) \<le> 20 \<Longrightarrow> length (stored_history (handleResult env now s ocr ai)) \<le> 20"
  using stored_history_handleResult_cases [of env now s ocr ai] by auto

lemma appends_keeps_bound:
  "length (stored_history s) \<le> 20 \<Longrightarrow> length (stored_history (appends s xs)) \<le> 20"
proof (induction xs arbitrary: s)
  case Nil
  then show ?case by simp
next
  case (Cons x xs)
  obtain env now ocr ai where x: "x = (env, now, ocr, ai)"
    by (cases x) auto
  from Cons.prems have "length (stored_history (handleResult env now s ocr ai)) \<le> 20"
    by (rule handleResult_keeps_bound)
  then show ?case
    using Cons.IH x by simp
qed



definition sample_ocr :: OCRResult where
  "sample_ocr = \<lparr>ocr_id = js ''1'', ocr_text = js ''1+1=?'', ocr_confidence = 0.9, ocr_timestamp = 1\<rparr>"

definition sample_ai :: AIResponse where
  "sample_ai = \<lparr>ai_id = js ''1'', question = js ''1+1=?'', answer = JStr (js ''2''),
     explanation = JStr (js ''sum''), ai_confidence = JNum 0.9, ai_timestamp = 1\<rparr>"

definition closed_screen :: camera_screen where
  "closed_screen = \<lparr>currentResult = None, showResult = False\<rparr>"

text \<open>A store whose history is at capacity: twenty items with ids \<open>0\<close> to \<open>19\<close>.\<close>

definition full_store :: "camera_screen \<times> storage" where
  "full_store =
     (closed_screen,
      empty_storage\<lparr>analysis_history :=
        Some (map (\<lambda>n. new_item n sample_ocr sample_ai) [0..<20])\<rparr>)"

text \<open>
  Claim C7. The stored history never holds more than 20 entries, whatever sequence of
  appends runs and whether or not each read and write of the store succeeds; an append
  that reaches the store puts the new entry first and keeps the 20 most recent; when
  the list already holds 20 entries the last one (the oldest) is dropped.
\<close>

theorem history_capped_newest_first:
  "(length (stored_history s) \<le> 20 \<longrightarrow> length (stored_history (appends s xs)) \<le> 20)
   \<and> length (stored_history (appends (scr, empty_storage) xs)) \<le> 20
   \<and> length (stored_history (handleResult io_ok now s ocr ai)) \<le> 20
   \<and> stored_history (handleResult io_ok now s ocr ai)
       = take 20 (new_item now ocr ai # stored_history s)
   \<and> hd (stored_history (handleResult io_ok now s ocr ai)) = new_item now ocr ai
   \<and> (length (stored_history s) = 20 \<longrightarrow>
        stored_history (handleResult io_ok now s ocr ai)
        = new_item now ocr ai # butlast (stored_history s))"
proof -
  have start: "length (stored_history (scr, empty_storage)) \<le> 20"
    by (simp add: stored_history_def empty_storage_def)
  have a: "length (stored_history s) \<le> 20 \<longrightarrow> length (stored_history (appends s xs)) \<le> 20"
    by (simp add: appends_keeps_bound)
  have b: "length (stored_history (appends (scr, empty_storage) xs)) \<le> 20"
    using start by (rule appends_keeps_bound)
  have c: "stored_history (handleResult io_ok now s ocr ai)
           = take 20 (new_item now ocr ai # stored_history s)"
    by (rule stored_history_handleResult_ok)
  have d: "length (stored_history (handleResult io_ok now s ocr ai)) \<le> 20"
    by (simp add: c)
  have e: "hd (stored_history (handleResult io_ok now s ocr ai)) = new_item now ocr ai"
    by (simp add: c take_Cons')
  have f: "length (stored_history s) = 20 \<longrightarrow>
           stored_history (handleResult io_ok now s ocr ai)
           = new_item now ocr ai # butlast (stored_history s)"
    by (simp add: c butlast_conv_take)
  from a b c d e f show ?thesis by blast
qed

theorem history_capped_newest_first_witness:
  "length (stored_history full_store) = 20
   \<and> length (stored_history (appends full_store [(io_ok, 20, sample_ocr, sample_ai)])) \<le> 20
   \<and> stored_history (handleResult io_ok 20 full_store sample_ocr sample_ai)
     = new_item 20 sample_ocr sample_ai # butlast (stored_history full_store)"
proof -
  have len: "length (stored_history full_store) = 20"
    by (simp add: stored_history_def full_store_def)
  show ?thesis
    using len
      history_capped_newest_first [of full_store "[(io_ok, 20, sample_ocr, sample_ai)]"
        closed_screen 20 sample_ocr sample_ai]
    by (simp add: butlast_conv_take)
qed

text \<open>
  Claim C10. A result is appended to the stored history whatever the save-history
  preference is: after the settings screen has stored \<open>false\<close> under \<open>save_history\<close>,
  \<open>handleResult\<close> still puts the new item first in the stored list, and in general
  \<open>handleResult\<close> does the same to the store whatever value \<open>save_history\<close> holds,
  leaving that value as it was.
\<close>

theorem history_saved_regardless_of_preference:
  "save_history (snd (toggleSaveHistory io_ok False (sscr, st))) = Some False
   \<and> stored_history
        (handleResult io_ok now (cscr, snd (toggleSaveHistory io_ok False (sscr, st))) ocr ai)
      = take 20 (new_item now ocr ai # stored_history (cscr, st))
   \<and> hd (stored_history
        (handleResult io_ok now (cscr, snd (toggleSaveHistory io_ok False (sscr, st))) ocr ai))
      = new_item now ocr ai
   \<and> handleResult env now (cscr, st\<lparr>save_history := v\<rparr>) ocr ai
      = (fst (handleResult env now (cscr, st) ocr ai),
         (snd (handleResult env now (cscr, st) ocr ai))\<lparr>save_history := v\<rparr>)"
proof -
  have a: "save_history (snd (toggleSaveHistory io_ok False (sscr, st))) = Some False"
    by (simp add: toggleSaveHistory_def io_ok_def)
  have same: "stored_history (cscr, snd (toggleSaveHistory io_ok False (sscr, st)))
              = stored_history (cscr, st)"
    by (simp add: toggleSaveHistory_def io_ok_def stored_history_def)
  have b: "stored_history
        (handleResult io_ok now (cscr, snd (toggleSaveHistory io_ok False (sscr, st))) ocr ai)
      = take 20 (new_item now ocr ai # stored_history (cscr, st))"
    by (simp add: stored_history_handleResult_ok same)
  have c: "hd (stored_history
        (handleResult io_ok now (cscr, snd (toggleSaveHistory io_ok False (sscr, st))) ocr ai))
      = new_item now ocr ai"
    by (simp add: b take_Cons')
  have d: "handleResult env now (cscr, st\<lparr>save_history := v\<rparr>) ocr ai
      = (fst (handleResult env now (cscr, st) ocr ai),
         (snd (handleResult env now (cscr, st) ocr ai))\<lparr>save_history := v\<rparr>)"
    by (simp add: handleResult_def Let_def)
  from a b c d show ?thesis by blast
qed

section \<open>Credential store: save, then load\<close>

text \<open>
  The credential typed into the settings screen, saved with \<open>saveApiKey\<close> (the store
  accepting the write), then shown by \<open>loadSettings\<close> on a freshly mounted settings
  screen; and the value found under \<open>openai_api_key\<close> after the save.
\<close>

definition save_then_load :: "settings_screen \<times> storage \<times> openai_service \<Rightarrow> jsstring \<Rightarrow> jsstring" where
  "save_then_load s k =
     (case s of (scr, st, svc) \<Rightarrow>
        case fst (saveApiKey io_ok (scr\<lparr>apiKey := k\<rparr>, st, svc)) of (scr1, st1, svc1) \<Rightarrow>
          apiKey (fst (loadSettings io_ok (initial_settings, st1, svc1))))"

definition stored_after_save :: "settings_screen \<times> storage \<times> openai_service \<Rightarrow> jsstring \<Rightarrow> jsstring option" where
  "stored_after_save s k =
     (case s of (scr, st, svc) \<Rightarrow>
        openai_api_key (fst (snd (fst (saveApiKey io_ok (scr\<lparr>apiKey := k\<rparr>, st, svc))))))"

definition idle_client :: openai_service where
  "idle_client = \<lparr>service_apiKey = []\<rparr>"

lemma sk_prefix: "startsWith k (js ''sk-'') \<Longrightarrow> \<exists>r. k = 0x73 # r"
  by (auto simp: startsWith_def js_def prefix_def)

lemma trim_keeps_front:
  "\<not> is_whitespace c \<Longrightarrow> trim (c # r) = c # rev (dropWhile is_whitespace (rev r))"
  by (simp add: trim_def dropWhile_append3)

lemma trim_fixed_iff:
  assumes "\<not> is_whitespace c"
  shows "trim (c # r) = c # r \<longleftrightarrow> \<not> is_whitespace (last (c # r))"
proof -
  have "trim (c # r) = c # r \<longleftrightarrow> rev (dropWhile is_whitespace (rev r)) = r"
    using assms by (simp add: trim_keeps_front)
  also have "\<dots> \<longleftrightarrow> dropWhile is_whitespace (rev r) = rev r"
    by (metis rev_rev_ident)
  also have "\<dots> \<longleftrightarrow> r = [] \<or> \<not> is_whitespace (last r)"
    by (simp add: dropWhile_eq_self_iff hd_rev)
  also have "\<dots> \<longleftrightarrow> \<not> is_whitespace (last (c # r))"
    using assms by simp
  finally show ?thesis .
qed

lemma save_stores_trimmed:
  assumes "startsWith k (js ''sk-'')"
  shows "fst (saveApiKey io_ok (scr\<lparr>apiKey := k\<rparr>, st, svc))
         = (scr\<lparr>apiKey := k, isLoading := False\<rparr>, st\<lparr>openai_api_key := Some (trim k)\<rparr>,
            setApiKey (trim k) svc)"
proof -
  obtain r where k: "k = 0x73 # r"
    using sk_prefix [OF assms] by blast
  have ws: "\<not> is_whitespace 0x73"
    by (simp add: is_whitespace_def)
  have "trim k \<noteq> []"
    by (simp add: k trim_keeps_front [OF ws])
  then show ?thesis
    using assms by (simp add: saveApiKey_def io_ok_def)
qed

lemma load_shows_stored:
  assumes "openai_api_key st = Some v" and "v \<noteq> []"
  shows "apiKey (fst (loadSettings io_ok (scr, st, svc))) = v"
  using assms by (simp add: loadSettings_def io_ok_def Let_def split: option.splits)

text \<open>
  Claim C5, as amended. For every credential that starts with \<open>sk-\<close>, \<open>saveApiKey\<close>
  stores the credential with the white space at its end removed, and a load then
  returns that trimmed value; it is the value that was entered exactly when the entered
  value does not end in white space.
\<close>

theorem save_then_load_returns_trimmed:
  assumes "startsWith k (js ''sk-'')"
  shows "stored_after_save (scr, st, svc) k = Some (trim k)
         \<and> save_then_load (scr, st, svc) k = trim k
         \<and> (save_then_load (scr, st, svc) k = k \<longleftrightarrow> \<not> is_whitespace (last k))"
proof -
  obtain r where k: "k = 0x73 # r"
    using sk_prefix [OF assms] by blast
  have ws: "\<not> is_whitespace 0x73"
    by (simp add: is_whitespace_def)
  have ne: "trim k \<noteq> []"
    by (simp add: k trim_keeps_front [OF ws])
  have stored: "stored_after_save (scr, st, svc) k = Some (trim k)"
    by (simp add: stored_after_save_def save_stores_trimmed [OF assms])
  have loaded: "save_then_load (scr, st, svc) k = trim k"
    by (simp add: save_then_load_def save_stores_trimmed [OF assms] load_shows_stored [OF _ ne])
  have same: "trim k = k \<longleftrightarrow> \<not> is_whitespace (last k)"
    unfolding k by (rule trim_fixed_iff [OF ws])
  from stored loaded same show ?thesis by simp
qed

theorem save_then_load_returns_trimmed_witness:
  "startsWith (js ''sk-abc'') (js ''sk-'')
   \<and> save_then_load (initial_settings, empty_storage, idle_client) (js ''sk-abc'') = js ''sk-abc''"
proof -
  have p: "startsWith (js ''sk-abc'') (js ''sk-'')"
    by (simp add: startsWith_def js_def)
  have t: "trim (js ''sk-abc'') = js ''sk-abc''"
    by (simp add: trim_def js_def is_whitespace_def)
  show ?thesis
    using p t save_then_load_returns_trimmed [OF p, of initial_settings empty_storage idle_client]
    by simp
qed

text \<open>
  Claim C5 as stated fails: \<open>sk-abc\<close> followed by a space is not empty and starts with
  the prefix, and after save the load returns \<open>sk-abc\<close> without the space.
\<close>

theorem save_then_load_counterexample:
  "js ''sk-abc '' \<noteq> [] \<and> startsWith (js ''sk-abc '') (js ''sk-'')
   \<and> save_then_load (initial_settings, empty_storage, idle_client) (js ''sk-abc '') = js ''sk-abc''
   \<and> js ''sk-abc'' \<noteq> js ''sk-abc ''"
  by (simp add: save_then_load_def saveApiKey_def loadSettings_def io_ok_def startsWith_def
      trim_def js_def is_whitespace_def initial_settings_def empty_storage_def setApiKey_def
      idle_client_def)

section \<open>Text recognition: the returned text and confidence\<close>

definition ready_service :: ocr_service where
  "ready_service = \<lparr>worker = True, isInitialized = True, isInitializing = False\<rparr>"

text \<open>The engine reading the text \<open>t\<close> with confidence \<open>c\<close> (out of 100).\<close>

definition engine_reads :: "jsstring \<Rightarrow> real \<Rightarrow> ocr_env" where
  "engine_reads t c =
     \<lparr>createWorker_ok = True, setParameters_ok = True, after_wait = ready_service,
      recognized = Some (t, c)\<rparr>"

text \<open>
  The code units other than white space that the second \<open>replace\<close> keeps: the ASCII
  digits and letters and the underscore (\<open>\w\<close>), U+3040 to U+309F, U+30A0 to U+30FF,
  U+4E00 to U+9FAF, and the eleven code units U+002B \<open>+\<close>, U+002D \<open>-\<close>, U+00D7 (the
  multiplication sign), U+00F7 (the division sign), U+003D \<open>=\<close>, U+0028 \<open>(\<close>,
  U+0029 \<open>)\<close>, U+003F \<open>?\<close>, U+0021 \<open>!\<close>, U+3002 and U+3001.
\<close>

definition kept_sign_or_letter :: "jschar \<Rightarrow> bool" where
  "kept_sign_or_letter ch =
     ((0x30 \<le> ch \<and> ch \<le> 0x39) \<or> (0x41 \<le> ch \<and> ch \<le> 0x5A) \<or> (0x61 \<le> ch \<and> ch \<le> 0x7A)
      \<or> ch = 0x5F
      \<or> (0x3040 \<le> ch \<and> ch \<le> 0x309F) \<or> (0x30A0 \<le> ch \<and> ch \<le> 0x30FF)
      \<or> (0x4E00 \<le> ch \<and> ch \<le> 0x9FAF)
      \<or> ch \<in> {0x2B, 0x2D, 0xD7, 0xF7, 0x3D, 0x28, 0x29, 0x3F, 0x21, 0x3002, 0x3001})"

lemma allowed_iff: "is_allowed_char c \<longleftrightarrow> kept_sign_or_letter c \<or> is_whitespace c"
  by (auto simp: is_allowed_char_def kept_sign_or_letter_def is_word_char_def is_digit_def)

lemma kept_not_whitespace: "kept_sign_or_letter c \<Longrightarrow> \<not> is_whitespace c"
  unfolding kept_sign_or_letter_def is_whitespace_def word_le_nat_alt
  by auto

lemma space_is_whitespace: "is_whitespace 0x20"
  by (simp add: is_whitespace_def)

lemma collapse_only_space:
  "c \<in> set (collapse_whitespace s) \<Longrightarrow> is_whitespace c \<Longrightarrow> c = 0x20"
proof (induction s rule: collapse_whitespace.induct)
  case 1
  then show ?case by simp
next
  case (2 d ds)
  then show ?case
    by (cases "is_whitespace d") auto
qed

lemma filter_not_dropWhile: "filter (\<lambda>c. \<not> P c) (dropWhile P xs) = filter (\<lambda>c. \<not> P c) xs"
  by (induction xs) auto

lemma collapse_keeps_the_rest:
  "filter (\<lambda>c. \<not> is_whitespace c) (collapse_whitespace s) = filter (\<lambda>c. \<not> is_whitespace c) s"
proof (induction s rule: collapse_whitespace.induct)
  case 1
  then show ?case by simp
next
  case (2 d ds)
  show ?case
  proof (cases "is_whitespace d")
    case True
    with 2 show ?thesis
      by (simp add: space_is_whitespace filter_not_dropWhile)
  next
    case False
    with 2 show ?thesis by simp
  qed
qed

lemma trim_keeps_the_rest:
  "filter (\<lambda>c. \<not> is_whitespace c) (trim s) = filter (\<lambda>c. \<not> is_whitespace c) s"
proof -
  have "filter (\<lambda>c. \<not> is_whitespace c) (trim s)
        = rev (filter (\<lambda>c. \<not> is_whitespace c) (dropWhile is_whitespace (rev (dropWhile is_whitespace s))))"
    by (simp add: trim_def rev_filter)
  also have "\<dots> = rev (filter (\<lambda>c. \<not> is_whitespace c) (rev (dropWhile is_whitespace s)))"
    by (simp only: filter_not_dropWhile)
  also have "\<dots> = filter (\<lambda>c. \<not> is_whitespace c) (dropWhile is_whitespace s)"
    by (simp add: rev_filter)
  also have "\<dots> = filter (\<lambda>c. \<not> is_whitespace c) s"
    by (rule filter_not_dropWhile)
  finally show ?thesis .
qed

lemma trim_ends:
  assumes "trim s \<noteq> []"
  shows "\<not> is_whitespace (hd (trim s))" and "\<not> is_whitespace (last (trim s))"
proof -
  let ?u = "dropWhile is_whitespace s"
  let ?v = "dropWhile is_whitespace (rev ?u)"
  have t: "trim s = rev ?v"
    by (simp add: trim_def)
  with assms have v: "?v \<noteq> []" by simp
  then have u: "?u \<noteq> []"
    by (metis dropWhile.simps(1) rev.simps(1))
  have "last (trim s) = hd ?v"
    using v by (simp add: t last_rev)
  moreover have "\<not> is_whitespace (hd ?v)"
    using v by (rule hd_dropWhile)
  ultimately show "\<not> is_whitespace (last (trim s))" by simp
  have "hd (trim s) = last ?v"
    using v by (simp add: t hd_rev)
  also have "\<dots> = last (rev ?u)"
    using v by (metis last_appendR takeWhile_dropWhile_id)
  also have "\<dots> = hd ?u"
    using u by (simp add: last_rev)
  finally have "hd (trim s) = hd ?u" .
  moreover have "\<not> is_whitespace (hd ?u)"
    using u by (rule hd_dropWhile)
  ultimately show "\<not> is_whitespace (hd (trim s))" by simp
qed

lemma set_trim: "set (trim s) \<subseteq> set s"
proof -
  have "set (trim s) = set (dropWhile is_whitespace (rev (dropWhile is_whitespace s)))"
    by (simp add: trim_def)
  also have "\<dots> \<subseteq> set (rev (dropWhile is_whitespace s))"
    by (auto dest: set_dropWhileD)
  also have "\<dots> \<subseteq> set s"
    by (auto dest: set_dropWhileD)
  finally show ?thesis .
qed

lemma strip_collapse_explicit:
  "strip_disallowed (collapse_whitespace t)
   = filter (\<lambda>ch. kept_sign_or_letter ch \<or> ch = 0x20) (collapse_whitespace t)"
  unfolding strip_disallowed_def
proof (rule filter_cong [OF refl])
  fix c assume "c \<in> set (collapse_whitespace t)"
  then show "is_allowed_char c = (kept_sign_or_letter c \<or> c = 0x20)"
    using collapse_only_space [of c t] space_is_whitespace
    by (auto simp: allowed_iff)
qed

lemma cleanText_chars:
  assumes "c \<in> set (cleanText raw)"
  shows "kept_sign_or_letter c \<or> c = 0x20"
proof -
  from assms set_trim have "c \<in> set (strip_disallowed (collapse_whitespace raw))"
    by (auto simp: cleanText_def)
  then show ?thesis
    by (simp add: strip_collapse_explicit)
qed

lemma cleanText_without_spaces:
  "filter (\<lambda>ch. ch \<noteq> 0x20) (cleanText raw) = filter kept_sign_or_letter raw"
proof -
  have "filter (\<lambda>ch. ch \<noteq> 0x20) (cleanText raw)
        = filter (\<lambda>c. \<not> is_whitespace c) (cleanText raw)"
  proof (rule filter_cong [OF refl])
    fix c assume "c \<in> set (cleanText raw)"
    then show "(c \<noteq> 0x20) = (\<not> is_whitespace c)"
      using cleanText_chars [of c raw] kept_not_whitespace [of c] space_is_whitespace by auto
  qed
  also have "\<dots> = filter (\<lambda>c. \<not> is_whitespace c) (strip_disallowed (collapse_whitespace raw))"
    by (simp add: cleanText_def trim_keeps_the_rest)
  also have "\<dots> = filter kept_sign_or_letter (filter (\<lambda>c. \<not> is_whitespace c) (collapse_whitespace raw))"
    unfolding strip_disallowed_def filter_filter
    by (rule filter_cong [OF refl]) (auto simp: allowed_iff dest: kept_not_whitespace)
  also have "\<dots> = filter kept_sign_or_letter (filter (\<lambda>c. \<not> is_whitespace c) raw)"
    by (simp only: collapse_keeps_the_rest)
  also have "\<dots> = filter kept_sign_or_letter raw"
    unfolding filter_filter
    by (rule filter_cong [OF refl]) (auto dest: kept_not_whitespace)
  finally show ?thesis .
qed

lemma cleanText_ends:
  assumes "cleanText raw \<noteq> []"
  shows "hd (cleanText raw) \<noteq> 0x20 \<and> last (cleanText raw) \<noteq> 0x20"
  using assms trim_ends [of "strip_disallowed (collapse_whitespace raw)"] space_is_whitespace
  by (auto simp: cleanText_def)

lemma recognizeText_Inr:
  assumes "recognizeText env svc uri rt = (Inr out, svc')"
  shows "\<exists>t c. recognized env = Some (t, c)
           \<and> out = \<lparr>rec_text = cleanText t, rec_confidence = max 0.1 (c / 100)\<rparr>"
  using assms
  by (auto simp: recognizeText_def Let_def split: prod.splits sum.splits if_splits option.splits)

text \<open>
  Claim C6, as amended. Whenever \<open>recognizeText\<close> returns, the engine has read some raw
  text \<open>t\<close> with some confidence \<open>c\<close>, and with \<open>kept\<close> the set of the ASCII digits
  \<open>0-9\<close>, the ASCII letters \<open>A-Z\<close> and \<open>a-z\<close>, the underscore, the code units U+3040 to
  U+309F, U+30A0 to U+30FF and U+4E00 to U+9FAF, and the eleven code units \<open>+\<close>, \<open>-\<close>,
  U+00D7, U+00F7, \<open>=\<close>, \<open>(\<close>, \<open>)\<close>, \<open>?\<close>, \<open>!\<close>, U+3002 and U+3001 (so the ASCII slash and
  asterisk are not kept, and \<open>x\<close> is kept as a letter):
  the returned text is \<open>t\<close> with every run of white space replaced by one space, then
  every code unit deleted that is neither in \<open>kept\<close> nor a space, then the white space
  at both ends trimmed; every code unit of it is in \<open>kept\<close> or a space; without its
  spaces it is \<open>t\<close> restricted to \<open>kept\<close>; when it is not empty it neither starts nor
  ends with a space; and the returned confidence is the larger of 0.1 and \<open>c / 100\<close>,
  so never below 0.1.
\<close>

theorem recognize_cleans_and_floors:
  assumes "recognizeText env svc uri rt = (Inr out, svc')"
  shows "\<exists>t c. recognized env = Some (t, c)
           \<and> (let kept = (\<lambda>ch.
                  (0x30 \<le> ch \<and> ch \<le> 0x39) \<or> (0x41 \<le> ch \<and> ch \<le> 0x5A)
                  \<or> (0x61 \<le> ch \<and> ch \<le> 0x7A) \<or> ch = 0x5F
                  \<or> (0x3040 \<le> ch \<and> ch \<le> 0x309F) \<or> (0x30A0 \<le> ch \<and> ch \<le> 0x30FF)
                  \<or> (0x4E00 \<le> ch \<and> ch \<le> 0x9FAF)
                  \<or> ch \<in> {0x2B, 0x2D, 0xD7, 0xF7, 0x3D, 0x28, 0x29, 0x3F, 0x21, 0x3002, 0x3001})
               in rec_text out
                    = trim (filter (\<lambda>ch. kept ch \<or> ch = 0x20) (collapse_whitespace t))
                  \<and> (\<forall>ch \<in> set (rec_text out). kept ch \<or> ch = 0x20)
                  \<and> filter (\<lambda>ch. ch \<noteq> 0x20) (rec_text out) = filter kept t
                  \<and> (rec_text out \<noteq> [] \<longrightarrow>
                        hd (rec_text out) \<noteq> 0x20 \<and> last (rec_text out) \<noteq> 0x20))
           \<and> rec_confidence out = max 0.1 (c / 100)
           \<and> 0.1 \<le> rec_confidence out"
proof -
  obtain t c where r: "recognized env = Some (t, c)"
    and out: "out = \<lparr>rec_text = cleanText t, rec_confidence = max 0.1 (c / 100)\<rparr>"
    using recognizeText_Inr [OF assms] by blast
  have k: "(\<lambda>ch. (0x30 \<le> ch \<and> ch \<le> 0x39) \<or> (0x41 \<le> ch \<and> ch \<le> 0x5A)
                  \<or> (0x61 \<le> ch \<and> ch \<le> 0x7A) \<or> ch = 0x5F
                  \<or> (0x3040 \<le> ch \<and> ch \<le> 0x309F) \<or> (0x30A0 \<le> ch \<and> ch \<le> 0x30FF)
                  \<or> (0x4E00 \<le> ch \<and> ch \<le> 0x9FAF)
                  \<or> ch \<in> {0x2B, 0x2D, 0xD7, 0xF7, 0x3D, 0x28, 0x29, 0x3F, 0x21, 0x3002, 0x3001})
           = kept_sign_or_letter"
    by (rule ext) (simp only: kept_sign_or_letter_def)
  have a: "rec_text out
           = trim (filter (\<lambda>ch. kept_sign_or_letter ch \<or> ch = 0x20) (collapse_whitespace t))"
    by (simp add: out cleanText_def strip_collapse_explicit)
  have b: "\<forall>ch \<in> set (rec_text out). kept_sign_or_letter ch \<or> ch = 0x20"
    using cleanText_chars [of _ t] by (simp add: out)
  have c: "filter (\<lambda>ch. ch \<noteq> 0x20) (rec_text out) = filter kept_sign_or_letter t"
    by (simp add: out cleanText_without_spaces)
  have d: "rec_text out \<noteq> [] \<longrightarrow> hd (rec_text out) \<noteq> 0x20 \<and> last (rec_text out) \<noteq> 0x20"
    using cleanText_ends [of t] by (simp add: out)
  have e: "rec_confidence out = max 0.1 (c / 100)"
    by (simp add: out)
  have f: "0.1 \<le> rec_confidence out"
    by (simp add: e)
  show ?thesis
    unfolding Let_def k
    by (intro exI [of _ t] exI [of _ c] conjI r a b c d e f)
qed

theorem recognize_cleans_and_floors_witness:
  "recognizeText (engine_reads [0x20, 0x31, 0x2F, 0x32, 0x20, 0x09, 0xD7, 0x40, 0x33, 0x20] 5)
      ready_service (js ''file'') False
     = (Inr \<lparr>rec_text = [0x31, 0x32, 0x20, 0xD7, 0x33], rec_confidence = 0.1\<rparr>, ready_service)
   \<and> filter (\<lambda>ch. ch \<noteq> 0x20) [0x31, 0x32, 0x20, 0xD7, 0x33] = [0x31, 0x32, 0xD7, 0x33 :: jschar]
   \<and> (0.1 :: real) \<le> rec_confidence \<lparr>rec_text = [0x31, 0x32, 0x20, 0xD7, 0x33], rec_confidence = 0.1\<rparr>"
proof -
  have run: "recognizeText (engine_reads [0x20, 0x31, 0x2F, 0x32, 0x20, 0x09, 0xD7, 0x40, 0x33,
      0x20] 5)
      ready_service (js ''file'') False
     = (Inr \<lparr>rec_text = [0x31, 0x32, 0x20, 0xD7, 0x33], rec_confidence = 0.1\<rparr>, ready_service)"
    by (simp add: recognizeText_def engine_reads_def ready_service_def cleanText_def
        strip_disallowed_def trim_def js_def is_whitespace_def is_allowed_char_def
        is_word_char_def is_digit_def)
  show ?thesis
    using run recognize_cleans_and_floors [OF run]
    by (simp add: engine_reads_def is_whitespace_def trim_def)
qed

text \<open>
  Claim C6 as stated fails: for the raw text of a space followed by \<open>a\<close>, collapsing
  and stripping leave the space in front, and \<open>recognizeText\<close> returns \<open>a\<close> alone.
\<close>

theorem recognize_trims_counterexample:
  "fst (recognizeText (engine_reads (js '' a'') 90) ready_service (js ''file'') False)
     = Inr \<lparr>rec_text = js ''a'', rec_confidence = 0.9\<rparr>
   \<and> strip_disallowed (collapse_whitespace (js '' a'')) = js '' a''
   \<and> js ''a'' \<noteq> js '' a''"
  by (simp add: recognizeText_def engine_reads_def ready_service_def cleanText_def
      strip_disallowed_def trim_def js_def is_whitespace_def is_allowed_char_def
      is_word_char_def is_digit_def)


section \<open>Completion client: errors and answers\<close>

text \<open>The field \<open>errorData.error?.k\<close> of an error body.\<close>

definition error_field :: "jsval \<Rightarrow> jsstring \<Rightarrow> jsval" where
  "error_field errorData k = opt_prop (opt_prop errorData (js ''error'')) k"

definition configured_client :: openai_service where
  "configured_client = \<lparr>service_apiKey = (js ''sk-test'')\<rparr>"

definition plain_engine :: engine where
  "plain_engine = \<lparr>numberToString = (\<lambda>r. []), typeErrorMessage = (js ''TypeError'')\<rparr>"

text \<open>An error answer of the endpoint, \<open>{"error": {"message": ..., "code": ...}}\<close>, and a
  completion, \<open>{"choices": [{"message": {"content": ...}}]}\<close>.\<close>

definition error_response :: "nat \<Rightarrow> jsstring \<Rightarrow> jsstring \<Rightarrow> http_response" where
  "error_response st msg code =
     \<lparr>status = st,
      body = Inr (JObj [(js ''error'', JObj [(js ''message'', JStr msg), (js ''code'', JStr code)])])\<rparr>"

definition completion_response :: "jsstring \<Rightarrow> http_response" where
  "completion_response content =
     \<lparr>status = 200,
      body = Inr (JObj [(js ''choices'',
               JArr [JObj [(js ''message'', JObj [(js ''content'', JStr content)])]])])\<rparr>"

lemma get_prop_defined:
  "v \<noteq> JNull \<Longrightarrow> v \<noteq> Undefined \<Longrightarrow> get_prop v k = Some (opt_prop v k)"
  by (cases v) (auto simp: opt_prop_def split: option.splits)

lemma message_content_completion:
  "message_content (JObj [(js ''choices'',
               JArr [JObj [(js ''message'', JObj [(js ''content'', JStr content)])]])]) = Some (JStr content)"
  by (simp add: message_content_def js_def)

lemma analyze_success:
  assumes "service_apiKey svc \<noteq> []" "ok response" "body response = Inr data"
    "message_content data = Some content"
  shows "analyzeText eng svc txt (Inr response) = Inr (parse_answer eng content)"
  using assms by (simp add: analyzeText_def)

lemma analyze_completion_response:
  "analyzeText eng configured_client txt (Inr (completion_response content))
   = Inr (parse_answer eng (JStr content))"
proof -
  have k: "service_apiKey configured_client \<noteq> []"
    by (simp add: configured_client_def js_def)
  have o: "ok (completion_response content)"
    by (simp add: ok_def completion_response_def)
  have b: "body (completion_response content) = Inr (JObj [(js ''choices'',
               JArr [JObj [(js ''message'', JObj [(js ''content'', JStr content)])]])])"
    by (simp add: completion_response_def)
  show ?thesis
    by (rule analyze_success [OF k o b message_content_completion])
qed

lemma parse_42: "JSON_parse (js ''42'') = Some (JNum 42)"
  by (simp add: parse_eval)

lemma parse_hello: "JSON_parse (js ''hello'') = None"
  by (simp add: parse_eval)

lemma parse_null: "JSON_parse (js ''null'') = Some JNull"
  by (simp add: parse_eval)

lemma parse_underflow:
  "JSON_parse (js ''{\"confidence\":1e-400}'') = Some (JObj [(js ''confidence'', JNum 0)])"
  by (simp add: parse_eval)

lemma parse_falsy_fields:
  "JSON_parse (js ''{\"answer\":\"\",\"explanation\":\"\",\"confidence\":0}'')
   = Some (JObj [(js ''answer'', JStr []), (js ''explanation'', JStr []), (js ''confidence'', JNum 0)])"
  by (simp add: parse_eval)

lemma parse_answer_json:
  assumes "JSON_parse (ToString eng content) = Some parsed"
    and "parsed \<noteq> JNull" and "parsed \<noteq> Undefined"
  shows "parse_answer eng content =
       \<lparr>ans_answer = or_else (opt_prop parsed (js ''answer'')) (JStr (js ''No answer provided'')),
        ans_explanation =
          or_else (opt_prop parsed (js ''explanation'')) (JStr (js ''No explanation provided'')),
        ans_confidence = or_else (opt_prop parsed (js ''confidence'')) (JNum 0.5)\<rparr>"
  using assms by (simp add: parse_answer_def get_prop_defined)

lemma parse_answer_null:
  assumes "JSON_parse (ToString eng content) = Some parsed"
    and "parsed = JNull \<or> parsed = Undefined"
  shows "parse_answer eng content = raw_answer content"
  using assms by (auto simp: parse_answer_def)

lemma or_else_not_falsy: "truthy d \<Longrightarrow> \<not> truthy x \<Longrightarrow> or_else v d \<noteq> x"
  by (auto simp: or_else_def)

text \<open>
  Claim C2, as amended. For every non-success HTTP response whose body is JSON (and,
  unless the status is 401 or 403, is not the JSON value \<open>null\<close>), \<open>analyzeText\<close> fails
  with the error the status determines: 401 gives \<open>InvalidCredential\<close>, 429 gives
  \<open>QuotaExceeded\<close> when the body's error code is \<open>insufficient_quota\<close> and \<open>RateLimited\<close>
  otherwise, 403 gives \<open>Forbidden\<close>, and any other status gives \<open>UpstreamError\<close> with the
  status and the body's error message (or \<open>Unknown error\<close>).
\<close>

theorem analyze_error_by_status:
  assumes key: "service_apiKey svc \<noteq> []"
    and nok: "\<not> ok response"
    and bdy: "body response = Inr errorData"
    and nonnull: "status response = 401 \<or> status response = 403
                  \<or> (errorData \<noteq> JNull \<and> errorData \<noteq> Undefined)"
  shows "analyzeText eng svc txt (Inr response) =
     Inl (if status response = 401 then InvalidCredential
          else if status response = 429 then
            (if error_field errorData (js ''code'') = JStr (js ''insufficient_quota'')
             then QuotaExceeded else RateLimited)
          else if status response = 403 then Forbidden
          else UpstreamError eng (status response) (error_field errorData (js ''message'')))"
proof (cases "status response = 401 \<or> status response = 403")
  case True
  then show ?thesis
    using key nok bdy by (auto simp: analyzeText_def)
next
  case False
  with nonnull have "get_prop errorData (js ''error'') = Some (opt_prop errorData (js ''error''))"
    by (simp add: get_prop_defined)
  then show ?thesis
    using key nok bdy False by (simp add: analyzeText_def error_field_def)
qed

theorem analyze_error_by_status_witness:
  "service_apiKey configured_client \<noteq> []
   \<and> \<not> ok (error_response 429 (js ''quota'') (js ''insufficient_quota''))
   \<and> analyzeText plain_engine configured_client (js ''1+1=?'')
        (Inr (error_response 429 (js ''quota'') (js ''insufficient_quota''))) = Inl QuotaExceeded
   \<and> \<not> ok (error_response 500 (js ''boom'') (js ''server_error''))
   \<and> analyzeText plain_engine configured_client (js ''1+1=?'')
        (Inr (error_response 500 (js ''boom'') (js ''server_error'')))
      = Inl (Error (js ''API error: 500 - boom''))"
proof -
  have k: "service_apiKey configured_client \<noteq> []"
    by (simp add: configured_client_def js_def)
  have o: "\<not> ok (error_response st msg code)" if "st = 429 \<or> st = 500" for st msg code
    using that by (auto simp: ok_def error_response_def)
  have b: "body (error_response st msg code)
           = Inr (JObj [(js ''error'', JObj [(js ''message'', JStr msg), (js ''code'', JStr code)])])"
    for st msg code
    by (simp add: error_response_def)
  have n: "status (error_response st msg code) = 401 \<or> status (error_response st msg code) = 403
           \<or> (JObj [(js ''error'', JObj [(js ''message'', JStr msg), (js ''code'', JStr code)])] \<noteq> JNull
              \<and> JObj [(js ''error'', JObj [(js ''message'', JStr msg), (js ''code'', JStr code)])] \<noteq> Undefined)"
    for st msg code
    by simp
  have q: "analyzeText plain_engine configured_client (js ''1+1=?'')
        (Inr (error_response 429 (js ''quota'') (js ''insufficient_quota''))) = Inl QuotaExceeded"
    using analyze_error_by_status [OF k o b n, of 429 plain_engine "js ''1+1=?''" "js ''quota''" "js ''insufficient_quota''"]
    by (simp add: error_response_def error_field_def opt_prop_def js_def)
  have u: "analyzeText plain_engine configured_client (js ''1+1=?'')
        (Inr (error_response 500 (js ''boom'') (js ''server_error'')))
      = Inl (Error (js ''API error: 500 - boom''))"
    using analyze_error_by_status [OF k o b n, of 500 plain_engine "js ''1+1=?''" "js ''boom''" "js ''server_error''"]
    by (simp add: error_response_def error_field_def opt_prop_def js_def UpstreamError_def
        or_else_def show_nat.simps digit_char_def)
  from k o [of 429] o [of 500] q u show ?thesis by simp
qed

text \<open>
  Claim C2 as stated fails: a 401 answer whose body is not JSON makes \<open>response.json()\<close>
  reject, and \<open>analyzeText\<close> fails with that \<open>SyntaxError\<close>, not with \<open>InvalidCredential\<close>.
\<close>

theorem analyze_unparsable_body_counterexample:
  "\<not> ok \<lparr>status = 401, body = Inl (js ''Unexpected token'')\<rparr>
   \<and> analyzeText plain_engine configured_client (js ''1+1=?'')
        (Inr \<lparr>status = 401, body = Inl (js ''Unexpected token'')\<rparr>)
      = Inl (SyntaxError (js ''Unexpected token''))
   \<and> SyntaxError (js ''Unexpected token'') \<noteq> InvalidCredential"
  by (simp add: analyzeText_def configured_client_def ok_def js_def InvalidCredential_def)

text \<open>
  Claim C4, as amended. For every successful HTTP completion response, if the message
  body is not valid JSON (\<open>JSON.parse\<close> throws), \<open>analyzeText\<close> returns the entire body as
  the answer, the fixed filler string as the explanation and confidence 0.8. The body
  \<open>42\<close> is valid JSON, a number without fields: for it \<open>analyzeText\<close> returns the default
  answer, the default explanation and confidence 0.5.
\<close>

theorem analyze_non_json_body:
  assumes "service_apiKey svc \<noteq> []" and "ok response" and "body response = Inr data"
    and "message_content data = Some content"
  shows "(JSON_parse (ToString eng content) = None \<longrightarrow>
            analyzeText eng svc txt (Inr response)
            = Inr \<lparr>ans_answer = content, ans_explanation = JStr [0x47, 0x50, 0x54, 0x2D,
                0x34, 0x306B, 0x3088, 0x308B, 0x56DE, 0x7B54],
                   ans_confidence = JNum 0.8\<rparr>)
         \<and> (content = JStr (js ''42'') \<longrightarrow>
            analyzeText eng svc txt (Inr response)
            = Inr \<lparr>ans_answer = JStr (js ''No answer provided''),
                   ans_explanation = JStr (js ''No explanation provided''),
                   ans_confidence = JNum 0.5\<rparr>)"
proof -
  have run: "analyzeText eng svc txt (Inr response) = Inr (parse_answer eng content)"
    using assms by (rule analyze_success)
  have a: "parse_answer eng content = raw_answer content"
    if "JSON_parse (ToString eng content) = None"
    using that by (simp add: parse_answer_def)
  have b: "parse_answer eng (JStr (js ''42''))
           = \<lparr>ans_answer = JStr (js ''No answer provided''),
              ans_explanation = JStr (js ''No explanation provided''),
              ans_confidence = JNum 0.5\<rparr>"
    by (simp add: parse_answer_def parse_42 opt_prop_def or_else_def)
  from run a b show ?thesis
    by (auto simp: raw_answer_def)
qed

theorem analyze_non_json_body_witness:
  "service_apiKey configured_client \<noteq> [] \<and> ok (completion_response (js ''hello''))
   \<and> JSON_parse (ToString plain_engine (JStr (js ''hello''))) = None
   \<and> analyzeText plain_engine configured_client (js ''1+1=?'') (Inr (completion_response (js ''hello'')))
      = Inr \<lparr>ans_answer = JStr (js ''hello''), ans_explanation = JStr [0x47, 0x50, 0x54,
          0x2D, 0x34, 0x306B, 0x3088, 0x308B, 0x56DE, 0x7B54],
             ans_confidence = JNum 0.8\<rparr>"
proof -
  have k: "service_apiKey configured_client \<noteq> []"
    by (simp add: configured_client_def js_def)
  have o: "ok (completion_response (js ''hello''))"
    by (simp add: ok_def completion_response_def)
  have b: "body (completion_response (js ''hello'')) = Inr (JObj [(js ''choices'',
               JArr [JObj [(js ''message'', JObj [(js ''content'', JStr (js ''hello''))])]])])"
    by (simp add: completion_response_def)
  have p: "JSON_parse (ToString plain_engine (JStr (js ''hello''))) = None"
    by (simp add: parse_hello)
  show ?thesis
    using k o p
      analyze_non_json_body [OF k o b message_content_completion, of plain_engine "js ''1+1=?''"]
    by simp
qed

text \<open>
  Claim C4 as stated fails at its own example: for the body \<open>42\<close> the answer is not
  \<open>42\<close> and the confidence is not 0.8.
\<close>

theorem analyze_42_counterexample:
  "ok (completion_response (js ''42''))
   \<and> analyzeText plain_engine configured_client (js ''6*7=?'') (Inr (completion_response (js ''42'')))
     = Inr \<lparr>ans_answer = JStr (js ''No answer provided''),
            ans_explanation = JStr (js ''No explanation provided''),
            ans_confidence = JNum 0.5\<rparr>
   \<and> JStr (js ''No answer provided'') \<noteq> JStr (js ''42'') \<and> JNum 0.5 \<noteq> JNum 0.8"
proof -
  have o: "ok (completion_response (js ''42''))"
    by (simp add: ok_def completion_response_def)
  have p: "parse_answer plain_engine (JStr (js ''42'')) =
       \<lparr>ans_answer = JStr (js ''No answer provided''),
            ans_explanation = JStr (js ''No explanation provided''),
            ans_confidence = JNum 0.5\<rparr>"
    by (simp add: parse_answer_def parse_42 opt_prop_def or_else_def)
  have n: "JStr (js ''No answer provided'') \<noteq> JStr (js ''42'')"
    by (simp add: js_def)
  show ?thesis
    using o n p by (simp add: analyze_completion_response)
qed

text \<open>
  Claim C9, as amended. For every successful completion response whose body parses as
  JSON to a value other than \<open>null\<close>, every field that is absent or falsy is replaced by
  its default (\<open>No answer provided\<close>, \<open>No explanation provided\<close>, 0.5) and a truthy field
  is returned as it is, so a confidence of 0 comes back as 0.5, an empty answer or
  explanation comes back as the default string, and every field of the result is
  truthy. When the body parses to \<open>null\<close> no default is substituted: the result is the
  body as the answer, the filler explanation and confidence 0.8. In both cases the
  result never has the confidence 0, the empty string as answer or the empty string as
  explanation.
\<close>

theorem analyze_json_defaults_for_falsy:
  assumes "service_apiKey svc \<noteq> []" and "ok response" and "body response = Inr data"
    and "message_content data = Some content"
    and "JSON_parse (ToString eng content) = Some parsed"
  shows "analyzeText eng svc txt (Inr response) = Inr (parse_answer eng content)
         \<and> ans_confidence (parse_answer eng content) \<noteq> JNum 0
         \<and> ans_answer (parse_answer eng content) \<noteq> JStr []
         \<and> ans_explanation (parse_answer eng content) \<noteq> JStr []
         \<and> (parsed = JNull \<longrightarrow>
              parse_answer eng content
              = \<lparr>ans_answer = content, ans_explanation = JStr [0x47, 0x50, 0x54, 0x2D,
                  0x34, 0x306B, 0x3088, 0x308B, 0x56DE, 0x7B54],
                 ans_confidence = JNum 0.8\<rparr>)
         \<and> (parsed \<noteq> JNull \<and> parsed \<noteq> Undefined \<longrightarrow>
              truthy (ans_answer (parse_answer eng content))
            \<and> truthy (ans_explanation (parse_answer eng content))
            \<and> truthy (ans_confidence (parse_answer eng content))
            \<and> (\<not> truthy (opt_prop parsed (js ''answer'')) \<longrightarrow>
                 ans_answer (parse_answer eng content) = JStr (js ''No answer provided''))
            \<and> (\<not> truthy (opt_prop parsed (js ''explanation'')) \<longrightarrow>
                 ans_explanation (parse_answer eng content) = JStr (js ''No explanation provided''))
            \<and> (\<not> truthy (opt_prop parsed (js ''confidence'')) \<longrightarrow>
                 ans_confidence (parse_answer eng content) = JNum 0.5)
            \<and> (opt_prop parsed (js ''confidence'') = JNum 0 \<longrightarrow>
                 ans_confidence (parse_answer eng content) = JNum 0.5)
            \<and> (opt_prop parsed (js ''answer'') = JStr [] \<longrightarrow>
                 ans_answer (parse_answer eng content) = JStr (js ''No answer provided''))
            \<and> (opt_prop parsed (js ''explanation'') = JStr [] \<longrightarrow>
                 ans_explanation (parse_answer eng content) = JStr (js ''No explanation provided''))
            \<and> (truthy (opt_prop parsed (js ''answer'')) \<longrightarrow>
                 ans_answer (parse_answer eng content) = opt_prop parsed (js ''answer''))
            \<and> (truthy (opt_prop parsed (js ''explanation'')) \<longrightarrow>
                 ans_explanation (parse_answer eng content) = opt_prop parsed (js ''explanation''))
            \<and> (truthy (opt_prop parsed (js ''confidence'')) \<longrightarrow>
                 ans_confidence (parse_answer eng content) = opt_prop parsed (js ''confidence'')))"
proof -
  have run: "analyzeText eng svc txt (Inr response) = Inr (parse_answer eng content)"
    using assms(1-4) by (rule analyze_success)
  have never: "ans_confidence (parse_answer eng content) \<noteq> JNum 0
         \<and> ans_answer (parse_answer eng content) \<noteq> JStr []
         \<and> ans_explanation (parse_answer eng content) \<noteq> JStr []"
  proof (cases "parsed = JNull \<or> parsed = Undefined")
    case True
    have "content \<noteq> JStr []"
      using assms(5) by (auto simp: JSON_parse_empty)
    then show ?thesis
      by (simp add: parse_answer_null [OF assms(5) True] raw_answer_def)
  next
    case False
    then have "parse_answer eng content =
       \<lparr>ans_answer = or_else (opt_prop parsed (js ''answer'')) (JStr (js ''No answer provided'')),
        ans_explanation =
          or_else (opt_prop parsed (js ''explanation'')) (JStr (js ''No explanation provided'')),
        ans_confidence = or_else (opt_prop parsed (js ''confidence'')) (JNum 0.5)\<rparr>"
      using parse_answer_json [OF assms(5)] by simp
    then show ?thesis
      by (simp add: or_else_not_falsy js_def)
  qed
  have null: "parsed = JNull \<longrightarrow>
      parse_answer eng content
      = \<lparr>ans_answer = content, ans_explanation = JStr [0x47, 0x50, 0x54, 0x2D, 0x34,
          0x306B, 0x3088, 0x308B, 0x56DE, 0x7B54],
         ans_confidence = JNum 0.8\<rparr>"
    using parse_answer_null [OF assms(5)] by (simp add: raw_answer_def)
  have fields: "parsed \<noteq> JNull \<and> parsed \<noteq> Undefined \<longrightarrow>
      parse_answer eng content =
       \<lparr>ans_answer = or_else (opt_prop parsed (js ''answer'')) (JStr (js ''No answer provided'')),
        ans_explanation =
          or_else (opt_prop parsed (js ''explanation'')) (JStr (js ''No explanation provided'')),
        ans_confidence = or_else (opt_prop parsed (js ''confidence'')) (JNum 0.5)\<rparr>"
    using parse_answer_json [OF assms(5)] by simp
  have t: "truthy (JStr (js ''No answer provided'')) \<and> truthy (JStr (js ''No explanation provided''))
           \<and> truthy (JNum 0.5)"
    by (simp add: js_def)
  from run never null fields t show ?thesis
    by (auto simp: or_else_def)
qed

theorem analyze_json_defaults_for_falsy_witness:
  "service_apiKey configured_client \<noteq> []
   \<and> ok (completion_response (js ''{\"answer\":\"\",\"explanation\":\"\",\"confidence\":0}''))
   \<and> JSON_parse (ToString plain_engine
         (JStr (js ''{\"answer\":\"\",\"explanation\":\"\",\"confidence\":0}'')))
      = Some (JObj [(js ''answer'', JStr []), (js ''explanation'', JStr []), (js ''confidence'', JNum 0)])
   \<and> analyzeText plain_engine configured_client (js ''1+1=?'')
        (Inr (completion_response (js ''{\"answer\":\"\",\"explanation\":\"\",\"confidence\":0}'')))
      = Inr \<lparr>ans_answer = JStr (js ''No answer provided''),
             ans_explanation = JStr (js ''No explanation provided''),
             ans_confidence = JNum 0.5\<rparr>
   \<and> ok (completion_response (js ''{\"confidence\":1e-400}''))
   \<and> JSON_parse (ToString plain_engine (JStr (js ''{\"confidence\":1e-400}'')))
      = Some (JObj [(js ''confidence'', JNum 0)])
   \<and> analyzeText plain_engine configured_client (js ''1+1=?'')
        (Inr (completion_response (js ''{\"confidence\":1e-400}'')))
      = Inr \<lparr>ans_answer = JStr (js ''No answer provided''),
             ans_explanation = JStr (js ''No explanation provided''),
             ans_confidence = JNum 0.5\<rparr>"
proof -
  let ?c = "js ''{\"answer\":\"\",\"explanation\":\"\",\"confidence\":0}''"
  let ?p = "JObj [(js ''answer'', JStr []), (js ''explanation'', JStr []), (js ''confidence'', JNum 0)]"
  let ?c2 = "js ''{\"confidence\":1e-400}''"
  let ?p2 = "JObj [(js ''confidence'', JNum 0)]"
  have k: "service_apiKey configured_client \<noteq> []"
    by (simp add: configured_client_def js_def)
  have o: "ok (completion_response c)" for c
    by (simp add: ok_def completion_response_def)
  have b: "body (completion_response c) = Inr (JObj [(js ''choices'',
               JArr [JObj [(js ''message'', JObj [(js ''content'', JStr c)])]])])" for c
    by (simp add: completion_response_def)
  have p: "JSON_parse (ToString plain_engine (JStr ?c)) = Some ?p"
    by (simp add: parse_falsy_fields)
  have p2: "JSON_parse (ToString plain_engine (JStr ?c2)) = Some ?p2"
    by (simp add: parse_underflow)
  have f: "opt_prop ?p (js ''answer'') = JStr [] \<and> opt_prop ?p (js ''explanation'') = JStr []
           \<and> opt_prop ?p (js ''confidence'') = JNum 0"
    by (simp add: opt_prop_def js_def)
  have f2: "opt_prop ?p2 (js ''answer'') = Undefined \<and> opt_prop ?p2 (js ''explanation'') = Undefined
           \<and> opt_prop ?p2 (js ''confidence'') = JNum 0"
    by (simp add: opt_prop_def js_def)
  have r: "x = \<lparr>ans_answer = ans_answer x, ans_explanation = ans_explanation x,
              ans_confidence = ans_confidence x\<rparr>" for x :: analysis
    by simp
  have a1: "analyzeText plain_engine configured_client (js ''1+1=?'') (Inr (completion_response ?c))
      = Inr \<lparr>ans_answer = JStr (js ''No answer provided''),
             ans_explanation = JStr (js ''No explanation provided''),
             ans_confidence = JNum 0.5\<rparr>"
    using f r [of "parse_answer plain_engine (JStr ?c)"]
      analyze_json_defaults_for_falsy
        [OF k o b message_content_completion p, of "js ''1+1=?''"]
    by simp
  have a2: "analyzeText plain_engine configured_client (js ''1+1=?'') (Inr (completion_response ?c2))
      = Inr \<lparr>ans_answer = JStr (js ''No answer provided''),
             ans_explanation = JStr (js ''No explanation provided''),
             ans_confidence = JNum 0.5\<rparr>"
    using f2 r [of "parse_answer plain_engine (JStr ?c2)"]
      analyze_json_defaults_for_falsy
        [OF k o b message_content_completion p2, of "js ''1+1=?''"]
    by simp
  from k o [of ?c] o [of ?c2] p p2 a1 a2 show ?thesis by simp
qed

text \<open>
  Claim C9 as stated fails: the body \<open>null\<close> is valid JSON with no fields at all, and
  \<open>analyzeText\<close> returns it as the answer with the filler explanation and confidence
  0.8 instead of the three defaults.
\<close>

theorem analyze_null_body_counterexample:
  "ok (completion_response (js ''null''))
   \<and> JSON_parse (js ''null'') = Some JNull
   \<and> analyzeText plain_engine configured_client (js ''1+1=?'') (Inr (completion_response (js ''null'')))
     = Inr \<lparr>ans_answer = JStr (js ''null''), ans_explanation = JStr [0x47, 0x50, 0x54,
         0x2D, 0x34, 0x306B, 0x3088, 0x308B, 0x56DE, 0x7B54],
            ans_confidence = JNum 0.8\<rparr>
   \<and> JStr (js ''null'') \<noteq> JStr (js ''No answer provided'')
   \<and> JStr [0x47, 0x50, 0x54, 0x2D, 0x34, 0x306B, 0x3088, 0x308B, 0x56DE, 0x7B54] \<noteq> JStr (js ''No explanation provided'')
   \<and> JNum 0.8 \<noteq> JNum 0.5"
proof -
  have o: "ok (completion_response (js ''null''))"
    by (simp add: ok_def completion_response_def)
  have p: "parse_answer plain_engine (JStr (js ''null''))
           = \<lparr>ans_answer = JStr (js ''null''), ans_explanation = JStr [0x47, 0x50, 0x54,
               0x2D, 0x34, 0x306B, 0x3088, 0x308B, 0x56DE, 0x7B54],
              ans_confidence = JNum 0.8\<rparr>"
    by (simp add: parse_answer_def parse_null raw_answer_def)
  have n: "JStr (js ''null'') \<noteq> JStr (js ''No answer provided'')
           \<and> JStr [0x47, 0x50, 0x54, 0x2D, 0x34, 0x306B, 0x3088, 0x308B, 0x56DE, 0x7B54] \<noteq> JStr (js ''No explanation provided'')"
    by (simp add: js_def)
  show ?thesis
    using o n p by (simp add: analyze_completion_response parse_null)
qed

section \<open>Capture orchestrator: what a periodic run forwards, shows and allows\<close>

text \<open>The texts sent to the completion client and the alerts shown, among the effects
  of a run.\<close>

fun forwarded :: "effect list \<Rightarrow> jsstring list" where
  "forwarded [] = []"
| "forwarded (Analyze t # fx) = t # forwarded fx"
| "forwarded (_ # fx) = forwarded fx"

fun alerts :: "effect list \<Rightarrow> (jsstring \<times> jsstring) list" where
  "alerts [] = []"
| "alerts (Alert t m # fx) = (t, m) # alerts fx"
| "alerts (_ # fx) = alerts fx"

text \<open>A camera view in periodic mode with its timer running, the services ready, and
  the outcomes of one run: the engine reads \<open>seen\<close>, \<open>fetch\<close> gives \<open>answer_of_fetch\<close>.\<close>

definition first_render :: render where
  "first_render = \<lparr>r_isProcessing = False, r_lastProcessTime = 0\<rparr>"

definition watching :: world where
  "watching =
     \<lparr>view = \<lparr>isProcessing = False, realtimeEnabled = True, lastProcessTime = 0, cameraRef = True,
              processingRef = False, intervalRef = Some first_render\<rparr>,
      recognizer = ready_service, client = configured_client\<rparr>"

definition frame :: "jsstring \<Rightarrow> js_error + http_response \<Rightarrow> frame_env" where
  "frame seen answer_of_fetch =
     \<lparr>clock = 5000, photo = Inr (Some (js ''file:///photo.jpg'')),
      recognition = engine_reads seen 90,
      completion = \<lparr>js_engine = plain_engine, fetch_result = answer_of_fetch,
                    ocr_id_clock = 5200, ocr_time = 5200, ai_id_clock = 5201, ai_time = 5201\<rparr>\<rparr>"

definition seen_question :: jsstring where
  "seen_question = js ''What is 12 + 30 = ?''"

definition spec_example :: jsstring where
  "spec_example = [0x3053, 0x306E, 0x554F, 0x984C, 0x306E, 0x7B54, 0x3048, 0x306F, 0x4F55,
      0x3067, 0x3059, 0x304B, 0xFF1F, 0x28, 0x78, 0x3D, 0x35, 0x29]"

text \<open>The guard is held exactly while a periodic run is in flight, and there is at most
  one such run.\<close>

definition guard_matches :: "orchestrator \<Rightarrow> bool" where
  "guard_matches orc =
     (length (runs orc) \<le> 1 \<and> (processingRef (view (world orc)) \<longleftrightarrow> runs orc \<noteq> []))"

definition idle_orchestrator :: orchestrator where
  "idle_orchestrator = \<lparr>world = watching, runs = [], manual_runs = 0, shown = []\<rparr>"

lemma forwarded_append: "forwarded (a @ b) = forwarded a @ forwarded b"
  by (induction a rule: forwarded.induct) auto

lemma alerts_append: "alerts (a @ b) = alerts a @ alerts b"
  by (induction a rule: alerts.induct) auto

lemma includes_single: "includes_js t [c] \<longleftrightarrow> c \<in> set t"
  by (induction t) auto

lemma question_like_iff:
  "question_like t \<longleftrightarrow>
     10 < length t \<and> (\<exists>c \<in> set t. c = 0x3F \<or> c = 0xFF1F \<or> c = 0x3D \<or> c = 0xFF1D \<or> is_digit c)"
  by (auto simp: question_like_def js_def includes_single list_ex_iff)

lemma forwarded_catch: "forwarded (snd (catch_frame e w)) = []"
  by (simp add: catch_frame_def)

lemma forwarded_leave: "forwarded (snd (leave_frame t w)) = []"
  by (simp add: leave_frame_def forwarded_catch split: option.splits)

lemma forwarded_after_ai: "forwarded (snd (snd (after_ai env sent w))) = []"
  by (simp add: after_ai_def split: sum.splits)

text \<open>
  Claim C3. In a periodic run that has recognized a text, the texts sent to the
  completion client are that text alone when it is longer than 10 code units and holds
  a question mark, a full-width question mark, an equals sign, a full-width equals sign
  or a digit \<open>0\<close> to \<open>9\<close>, and nothing otherwise.
\<close>

theorem forwarded_iff_question_like:
  assumes b: "begin_frame cl (clock env) (view w) = Some v"
    and p: "after_photo (photo env) = Next uri"
    and r: "recognizeText (recognition env) (recognizer w) uri False = (Inr out, svc)"
  shows "forwarded (snd (processCurrentFrame cl env w))
         = (if 10 < length (rec_text out)
               \<and> (\<exists>c \<in> set (rec_text out).
                     c = 0x3F \<or> c = 0xFF1F \<or> c = 0x3D \<or> c = 0xFF1D \<or> is_digit c)
            then [rec_text out] else [])"
proof -
  let ?w = "w\<lparr>view := v\<rparr>"
  have r': "recognizeText (recognition env) (recognizer ?w) uri False = (Inr out, svc)"
    using r by simp
  show ?thesis
  proof (cases "question_like (rec_text out)")
    case True
    obtain s w2 fx2 where ai: "after_ai (completion env) (out, client (?w\<lparr>recognizer := svc\<rparr>))
        (?w\<lparr>recognizer := svc, view := (view (?w\<lparr>recognizer := svc\<rparr>))\<lparr>isProcessing := True\<rparr>\<rparr>) = (s, w2, fx2)"
      by (metis prod_cases3)
    have "forwarded fx2 = []"
      using forwarded_after_ai [of "completion env" "(out, client (?w\<lparr>recognizer := svc\<rparr>))"
          "?w\<lparr>recognizer := svc, view := (view (?w\<lparr>recognizer := svc\<rparr>))\<lparr>isProcessing := True\<rparr>\<rparr>"] ai
      by simp
    then have "forwarded (snd (run_frame env ?w)) = [rec_text out]"
      using p r' True ai
      by (auto simp: run_frame_def after_ocr_def Let_def forwarded_append forwarded_leave
          split: segment.splits)
    then show ?thesis
      using b True by (simp add: processCurrentFrame_def question_like_iff)
  next
    case False
    have "forwarded (snd (run_frame env ?w)) = []"
      using p r' False
      by (simp add: run_frame_def after_ocr_def Let_def forwarded_leave)
    then show ?thesis
      using b False by (simp add: processCurrentFrame_def question_like_iff)
  qed
qed


theorem forwarded_iff_question_like_witness:
  "begin_frame first_render (clock (frame spec_example (Inr (completion_response (js ''5'')))))
       (view watching)
     = Some ((view watching)\<lparr>processingRef := True, lastProcessTime := 5000\<rparr>)
   \<and> after_photo (photo (frame spec_example (Inr (completion_response (js ''5'')))))
     = Next (js ''file:///photo.jpg'')
   \<and> recognizeText (recognition (frame spec_example (Inr (completion_response (js ''5'')))))
        (recognizer watching) (js ''file:///photo.jpg'') False
     = (Inr \<lparr>rec_text = [0x3053, 0x306E, 0x554F, 0x984C, 0x306E, 0x7B54, 0x3048, 0x306F,
         0x4F55, 0x3067, 0x3059, 0x304B, 0x28, 0x78, 0x3D, 0x35, 0x29], rec_confidence = 0.9\<rparr>, ready_service)
   \<and> forwarded (snd (processCurrentFrame first_render
                       (frame spec_example (Inr (completion_response (js ''5'')))) watching))
     = [[0x3053, 0x306E, 0x554F, 0x984C, 0x306E, 0x7B54, 0x3048, 0x306F, 0x4F55, 0x3067, 0x3059,
         0x304B, 0x28, 0x78, 0x3D, 0x35, 0x29]]
   \<and> recognizeText (recognition (frame (js ''2+2=?'') (Inr (completion_response (js ''4'')))))
        (recognizer watching) (js ''file:///photo.jpg'') False
     = (Inr \<lparr>rec_text = js ''2+2=?'', rec_confidence = 0.9\<rparr>, ready_service)
   \<and> forwarded (snd (processCurrentFrame first_render
                       (frame (js ''2+2=?'') (Inr (completion_response (js ''4'')))) watching))
     = []"
proof -
  have b: "begin_frame first_render (clock (frame seen f)) (view watching)
     = Some ((view watching)\<lparr>processingRef := True, lastProcessTime := 5000\<rparr>)" for seen f
    by (simp add: begin_frame_def first_render_def watching_def frame_def)
  have p: "after_photo (photo (frame seen f)) = Next (js ''file:///photo.jpg'')" for seen f
    by (simp add: after_photo_def frame_def js_def)
  have r1: "recognizeText (recognition (frame spec_example f))
        (recognizer watching) (js ''file:///photo.jpg'') False
     = (Inr \<lparr>rec_text = [0x3053, 0x306E, 0x554F, 0x984C, 0x306E, 0x7B54, 0x3048, 0x306F,
         0x4F55, 0x3067, 0x3059, 0x304B, 0x28, 0x78, 0x3D, 0x35, 0x29], rec_confidence = 0.9\<rparr>, ready_service)"
    for f
    by (simp add: recognizeText_def engine_reads_def ready_service_def cleanText_def
        strip_disallowed_def trim_def js_def is_whitespace_def is_allowed_char_def
        is_word_char_def is_digit_def spec_example_def frame_def watching_def)
  have r2: "recognizeText (recognition (frame (js ''2+2=?'') f))
        (recognizer watching) (js ''file:///photo.jpg'') False
     = (Inr \<lparr>rec_text = js ''2+2=?'', rec_confidence = 0.9\<rparr>, ready_service)" for f
    by (simp add: recognizeText_def engine_reads_def ready_service_def cleanText_def
        strip_disallowed_def trim_def js_def is_whitespace_def is_allowed_char_def
        is_word_char_def is_digit_def frame_def watching_def)
  have f1: "forwarded (snd (processCurrentFrame first_render
                       (frame spec_example (Inr (completion_response (js ''5'')))) watching))
     = [[0x3053, 0x306E, 0x554F, 0x984C, 0x306E, 0x7B54, 0x3048, 0x306F, 0x4F55, 0x3067, 0x3059,
         0x304B, 0x28, 0x78, 0x3D, 0x35, 0x29]]"
    using forwarded_iff_question_like [OF b p r1] by (simp add: js_def)
  have f2: "forwarded (snd (processCurrentFrame first_render
                       (frame (js ''2+2=?'') (Inr (completion_response (js ''4'')))) watching))
     = []"
    using forwarded_iff_question_like [OF b p r2] by (simp add: js_def)
  from b p r1 r2 f1 f2 show ?thesis by simp
qed

lemma alerts_leave_None: "alerts (snd (leave_frame None w)) = []"
  by (simp add: leave_frame_def)

lemma alerts_leave_Some:
  "alerts (snd (leave_frame (Some e) w))
   = (if stops_realtime e then [([0x41, 0x50, 0x49, 0x20, 0x30A8, 0x30E9, 0x30FC], message e)] else [])"
  by (simp add: leave_frame_def catch_frame_def)

lemma enabled_leave_Some:
  "realtimeEnabled (view (fst (leave_frame (Some e) w)))
   = (realtimeEnabled (view w) \<and> \<not> stops_realtime e)"
  by (simp add: leave_frame_def catch_frame_def finally_frame_def)

lemma run_frame_completion_error:
  assumes p: "after_photo (photo env) = Next uri"
    and r: "recognizeText (recognition env) (recognizer w) uri False = (Inr out, svc)"
    and q: "question_like (rec_text out)"
    and a: "analyzeText (js_engine (completion env)) (client w) (rec_text out)
              (fetch_result (completion env)) = Inl e"
  shows "realtimeEnabled (view (fst (run_frame env w)))
           = (realtimeEnabled (view w) \<and> \<not> stops_realtime e)"
    and "alerts (snd (run_frame env w))
           = (if stops_realtime e then [([0x41, 0x50, 0x49, 0x20, 0x30A8, 0x30E9, 0x30FC], message e)] else [])"
    and "\<not> processingRef (view (fst (run_frame env w)))"
proof -
  let ?w1 = "w\<lparr>recognizer := svc, view := (view w)\<lparr>isProcessing := True\<rparr>\<rparr>"
  have o: "after_ocr (recognition env) uri w
           = (Next (out, client w), ?w1, [Analyze (rec_text out)])"
    using r q by (simp add: after_ocr_def)
  have ai: "after_ai (completion env) (out, client w) ?w1 = (Thrown e, ?w1, [])"
    using a by (simp add: after_ai_def)
  have run: "run_frame env w
             = (fst (leave_frame (Some e) ?w1),
                [Analyze (rec_text out)] @ [] @ snd (leave_frame (Some e) ?w1))"
    using p o ai by (simp add: run_frame_def)
  show "realtimeEnabled (view (fst (run_frame env w)))
           = (realtimeEnabled (view w) \<and> \<not> stops_realtime e)"
    by (simp add: run enabled_leave_Some)
  show "alerts (snd (run_frame env w))
           = (if stops_realtime e then [([0x41, 0x50, 0x49, 0x20, 0x30A8, 0x30E9, 0x30FC], message e)] else [])"
    by (simp add: run alerts_leave_Some del: alerts.simps forwarded.simps) (simp add: alerts_leave_Some)
  show "\<not> processingRef (view (fst (run_frame env w)))"
    by (simp add: run leave_frame_def finally_frame_def)
qed

lemma stops_Forbidden: "\<not> stops_realtime Forbidden"
  by (simp add: stops_realtime_def Forbidden_def)

lemma stops_QuotaExceeded: "\<not> stops_realtime QuotaExceeded"
  by (simp add: stops_realtime_def QuotaExceeded_def)

lemma stops_InvalidCredential: "stops_realtime InvalidCredential"
  by (simp add: stops_realtime_def InvalidCredential_def)

lemma stops_RateLimited: "stops_realtime RateLimited"
  by (simp add: stops_realtime_def RateLimited_def)

lemma recognize_seen:
  "recognizeText (engine_reads seen_question 90) ready_service uri False
   = (Inr \<lparr>rec_text = seen_question, rec_confidence = 0.9\<rparr>, ready_service)"
  by (simp add: recognizeText_def engine_reads_def ready_service_def cleanText_def
        strip_disallowed_def trim_def js_def is_whitespace_def is_allowed_char_def
        is_word_char_def is_digit_def seen_question_def)

lemma seen_question_like: "question_like seen_question"
  by (simp add: question_like_def seen_question_def js_def is_digit_def)

lemma begin_watching:
  "begin_frame first_render 5000 (view watching)
   = Some ((view watching)\<lparr>processingRef := True, lastProcessTime := 5000\<rparr>)"
  by (simp add: begin_frame_def first_render_def watching_def)


text \<open>
  Claim C1 at the two errors the handler misses. In a periodic run whose completion
  request is answered with status 403, \<open>analyzeText\<close> fails with \<open>Forbidden\<close>, periodic
  mode stays enabled and no alert is shown; the same for status 429 with the code
  \<open>insufficient_quota\<close> and the error \<open>QuotaExceeded\<close>. The messages of these two errors
  contain neither of the two phrases the \<open>catch\<close> block looks for.
\<close>

theorem periodic_forbidden_keeps_running:
  "analyzeText plain_engine configured_client seen_question
      (Inr (error_response 403 (js ''denied'') (js ''forbidden''))) = Inl Forbidden
   \<and> realtimeEnabled (view (fst (processCurrentFrame first_render
        (frame seen_question (Inr (error_response 403 (js ''denied'') (js ''forbidden'')))) watching)))
   \<and> alerts (snd (processCurrentFrame first_render
        (frame seen_question (Inr (error_response 403 (js ''denied'') (js ''forbidden'')))) watching)) = []
   \<and> analyzeText plain_engine configured_client seen_question
      (Inr (error_response 429 (js ''quota'') (js ''insufficient_quota''))) = Inl QuotaExceeded
   \<and> realtimeEnabled (view (fst (processCurrentFrame first_render
        (frame seen_question (Inr (error_response 429 (js ''quota'') (js ''insufficient_quota'')))) watching)))
   \<and> alerts (snd (processCurrentFrame first_render
        (frame seen_question (Inr (error_response 429 (js ''quota'') (js ''insufficient_quota'')))) watching)) = []"
proof -
  let ?w = "watching\<lparr>view := (view watching)\<lparr>processingRef := True, lastProcessTime := 5000\<rparr>\<rparr>"
  have run: "processCurrentFrame first_render (frame seen f) watching = run_frame (frame seen f) ?w"
    for seen f
    by (simp add: processCurrentFrame_def begin_watching frame_def)
  have p: "after_photo (photo (frame seen f)) = Next (js ''file:///photo.jpg'')" for seen f
    by (simp add: after_photo_def frame_def js_def)
  have r: "recognizeText (recognition (frame seen_question f)) (recognizer ?w)
             (js ''file:///photo.jpg'') False
           = (Inr \<lparr>rec_text = seen_question, rec_confidence = 0.9\<rparr>, ready_service)" for f
    by (simp add: frame_def watching_def recognize_seen)
  have q: "question_like (rec_text \<lparr>rec_text = seen_question, rec_confidence = 0.9\<rparr>)"
    by (simp add: seen_question_like)
  have a403: "analyzeText plain_engine configured_client seen_question
      (Inr (error_response 403 (js ''denied'') (js ''forbidden''))) = Inl Forbidden"
    by (simp add: analyzeText_def configured_client_def error_response_def ok_def js_def)
  have a429: "analyzeText plain_engine configured_client seen_question
      (Inr (error_response 429 (js ''quota'') (js ''insufficient_quota''))) = Inl QuotaExceeded"
    by (simp add: analyzeText_def configured_client_def error_response_def ok_def js_def
        opt_prop_def)
  have a: "analyzeText (js_engine (completion (frame seen_question f))) (client ?w)
             (rec_text \<lparr>rec_text = seen_question, rec_confidence = 0.9\<rparr>)
             (fetch_result (completion (frame seen_question f)))
           = analyzeText plain_engine configured_client seen_question f" for f
    by (simp add: frame_def watching_def)
  have on: "realtimeEnabled (view ?w)"
    by (simp add: watching_def)
  note e403 = run_frame_completion_error [OF p r q, of _ Forbidden, unfolded a, OF a403]
  note e429 = run_frame_completion_error [OF p r q, of _ QuotaExceeded, unfolded a, OF a429]
  show ?thesis
    using a403 a429 e403(1,2) e429(1,2) on
    by (simp add: run stops_Forbidden stops_QuotaExceeded)
qed

lemma processingRef_realtime_effect [simp]:
  "processingRef (realtime_effect b v) = processingRef v"
  by (simp add: realtime_effect_def startRealtimeProcessing_def stopRealtimeProcessing_def)

lemma processingRef_after_ocr:
  "processingRef (view (fst (snd (after_ocr env uri w)))) = processingRef (view w)"
  by (simp add: after_ocr_def Let_def split: prod.splits sum.splits)

lemma processingRef_after_ai:
  "processingRef (view (fst (snd (after_ai env sent w)))) = processingRef (view w)"
  by (simp add: after_ai_def split: sum.splits)

lemma processingRef_leave: "\<not> processingRef (view (fst (leave_frame t w)))"
  by (simp add: leave_frame_def finally_frame_def split: option.splits)

lemma processingRef_finish_manual:
  "processingRef (view (fst (finish_manual env w))) = processingRef (view w)"
  by (simp add: finish_manual_def manual_body_def Let_def
      split: prod.splits sum.splits segment.splits)

lemma drop_run_single: "length rs \<le> 1 \<Longrightarrow> i < length rs \<Longrightarrow> drop_run i rs = []"
  by (cases rs) (auto simp: drop_run_def)

lemma advance_keeps_guard:
  assumes g: "guard_matches orc" and i: "i < length (runs orc)"
    and same: "processingRef (view (fst (snd r))) = processingRef (view (world orc))"
  shows "guard_matches (advance orc i r to_stage)"
proof -
  obtain seg w fx where r: "r = (seg, w, fx)"
    by (cases r) auto
  from g i have one: "length (runs orc) \<le> 1" and held: "processingRef (view (world orc))"
    by (auto simp: guard_matches_def)
  show ?thesis
  proof (cases seg)
    case (Next x)
    with r same g i show ?thesis
      by (auto simp: advance_def guard_matches_def)
  next
    case (Thrown e)
    obtain w' fx' where l: "leave_frame (Some e) w = (w', fx')"
      by (cases "leave_frame (Some e) w") auto
    with processingRef_leave [of "Some e" w] have "\<not> processingRef (view w')" by simp
    with r Thrown l one i show ?thesis
      by (simp add: advance_def guard_matches_def drop_run_single)
  next
    case Returned
    obtain w' fx' where l: "leave_frame None w = (w', fx')"
      by (cases "leave_frame None w") auto
    with processingRef_leave [of None w] have "\<not> processingRef (view w')" by simp
    with r Returned l one i show ?thesis
      by (simp add: advance_def guard_matches_def drop_run_single)
  qed
qed

lemma begin_frame_takes_guard:
  "begin_frame cl now v = Some v' \<Longrightarrow> \<not> processingRef v \<and> processingRef v'"
  by (auto simp: begin_frame_def split: if_splits)

lemma step_keeps_guard:
  assumes g: "guard_matches orc"
  shows "guard_matches (step orc ev)"
proof (cases ev)
  case (Tick now)
  show ?thesis
  proof (cases "intervalRef (view (world orc))")
    case None
    with Tick g show ?thesis by simp
  next
    case (Some cl)
    show ?thesis
    proof (cases "interval_tick cl now (view (world orc))")
      case None
      with Tick Some g show ?thesis by simp
    next
      case (Some v)
      then have "\<not> processingRef (view (world orc)) \<and> processingRef v"
        by (auto simp: interval_tick_def split: if_splits dest: begin_frame_takes_guard)
      with g have "runs orc = []" and "processingRef v"
        by (auto simp: guard_matches_def)
      with Tick \<open>intervalRef (view (world orc)) = Some cl\<close> Some show ?thesis
        by (simp add: guard_matches_def)
    qed
  qed
next
  case (PhotoDone i p)
  with g show ?thesis
    by (auto intro: advance_keeps_guard)
next
  case (OcrDone i env)
  with g show ?thesis
    by (auto intro!: advance_keeps_guard simp: processingRef_after_ocr split: stage.splits)
next
  case (AiDone i env)
  with g show ?thesis
    by (auto intro!: advance_keeps_guard simp: processingRef_after_ai split: stage.splits)
next
  case ToggleRealtime
  with g show ?thesis
    by (auto simp: guard_matches_def Let_def)
next
  case ManualPress
  with g show ?thesis
    by (auto simp: guard_matches_def begin_manual_def split: option.splits if_splits)
next
  case (ManualDone env)
  with g processingRef_finish_manual [of env "world orc"] show ?thesis
    by (auto simp: guard_matches_def split: prod.splits)
qed

lemma steps_keep_guard: "guard_matches orc \<Longrightarrow> guard_matches (steps orc es)"
  unfolding steps_def
  by (induction es arbitrary: orc) (auto intro: step_keeps_guard)

lemma mounted_guard: "mounted orc \<Longrightarrow> guard_matches orc"
  by (simp add: mounted_def guard_matches_def)

lemma tick_dropped_while_held:
  "processingRef (view (world orc)) \<Longrightarrow> step orc (Tick now) = orc"
  by (simp add: interval_tick_def split: option.splits)


text \<open>
  Claim C8 at a capture with the button. With periodic mode on and nothing in flight,
  a press of the capture button starts a capture and sets the state \<open>isProcessing\<close>,
  but leaves the guard \<open>processingRef\<close> free; the callback of the timer reads the guard
  and the \<open>isProcessing\<close> of the render that started the timer, so the next tick is not
  skipped: it starts a periodic run while the capture of the button is in flight. In
  the other order, a tick starts a periodic run, which takes the guard but does not
  set \<open>isProcessing\<close> before its recognition has ended, and a press of the button then
  starts a capture beside it.
\<close>

theorem tick_during_button_capture_starts_run:
  "mounted idle_orchestrator
   \<and> manual_runs (step idle_orchestrator ManualPress) = 1
   \<and> runs (step idle_orchestrator ManualPress) = []
   \<and> isProcessing (view (world (step idle_orchestrator ManualPress)))
   \<and> \<not> processingRef (view (world (step idle_orchestrator ManualPress)))
   \<and> step (step idle_orchestrator ManualPress) (Tick 5000) \<noteq> step idle_orchestrator ManualPress
   \<and> manual_runs (steps idle_orchestrator [ManualPress, Tick 5000]) = 1
   \<and> runs (steps idle_orchestrator [ManualPress, Tick 5000]) = [AwaitPhoto]
   \<and> runs (step idle_orchestrator (Tick 5000)) = [AwaitPhoto]
   \<and> processingRef (view (world (step idle_orchestrator (Tick 5000))))
   \<and> \<not> isProcessing (view (world (step idle_orchestrator (Tick 5000))))
   \<and> manual_runs (steps idle_orchestrator [Tick 5000, ManualPress]) = 1
   \<and> runs (steps idle_orchestrator [Tick 5000, ManualPress]) = [AwaitPhoto]"
  by (simp add: mounted_def steps_def idle_orchestrator_def watching_def interval_tick_def
      begin_frame_def begin_manual_def first_render_def)

text \<open>
  The runs started by the timer do not overlap one another. From the mounted component,
  after any sequence of timer ticks, completions of the stages of runs, presses of
  the periodic switch and captures with the button, at most one run started by the
  timer is in flight; and while one is in flight the guard \<open>processingRef\<close> is held and
  a timer tick changes nothing: no run is started and nothing is queued.
\<close>

theorem periodic_runs_never_overlap:
  assumes "mounted orc"
  shows "length (runs (steps orc es)) \<le> 1
         \<and> (runs (steps orc es) \<noteq> [] \<longrightarrow>
              processingRef (view (world (steps orc es)))
              \<and> step (steps orc es) (Tick now) = steps orc es)"
proof -
  have g: "guard_matches (steps orc es)"
    using assms by (intro steps_keep_guard mounted_guard)
  then have one: "length (runs (steps orc es)) \<le> 1"
    by (simp add: guard_matches_def)
  have "processingRef (view (world (steps orc es)))
        \<and> step (steps orc es) (Tick now) = steps orc es" if "runs (steps orc es) \<noteq> []"
  proof -
    from g that have held: "processingRef (view (world (steps orc es)))"
      by (simp add: guard_matches_def)
    with tick_dropped_while_held [OF held] show ?thesis by simp
  qed
  with one show ?thesis by blast
qed

theorem periodic_runs_never_overlap_witness:
  "mounted idle_orchestrator
   \<and> runs (steps idle_orchestrator [Tick 5000, Tick 8000]) = [AwaitPhoto]
   \<and> processingRef (view (world (steps idle_orchestrator [Tick 5000, Tick 8000])))
   \<and> step (steps idle_orchestrator [Tick 5000, Tick 8000]) (Tick 11000)
     = steps idle_orchestrator [Tick 5000, Tick 8000]"
proof -
  have m: "mounted idle_orchestrator"
    by (simp add: mounted_def idle_orchestrator_def watching_def)
  have r: "runs (steps idle_orchestrator [Tick 5000, Tick 8000]) = [AwaitPhoto]"
    by (simp add: steps_def idle_orchestrator_def watching_def interval_tick_def begin_frame_def
        first_render_def)
  show ?thesis
    using m r periodic_runs_never_overlap [OF m, of "[Tick 5000, Tick 8000]" 11000]
    by simp
qed

section \<open>Further properties of the screens\<close>

text \<open>The results handed to \<open>onResult\<close>, among the effects of a run.\<close>

fun results :: "effect list \<Rightarrow> (OCRResult \<times> AIResponse) list" where
  "results [] = []"
| "results (OnResult a b # fx) = (a, b) # results fx"
| "results (_ # fx) = results fx"

text \<open>
  A credential that is empty after trimming, or that does not start with \<open>sk-\<close>, is
  rejected by \<open>saveApiKey\<close> with one alert: the text field, the store and the
  completion client stay as they were, whatever the store would do with a write.
\<close>

theorem save_rejects_invalid:
  assumes "trim k = [] \<or> \<not> startsWith k (js ''sk-'')"
  shows "fst (saveApiKey env (scr\<lparr>apiKey := k\<rparr>, st, svc)) = (scr\<lparr>apiKey := k\<rparr>, st, svc)
         \<and> length (alerts (snd (saveApiKey env (scr\<lparr>apiKey := k\<rparr>, st, svc)))) = 1"
  using assms by (auto simp: saveApiKey_def)

theorem save_rejects_invalid_witness:
  "\<not> startsWith (js ''abc'') (js ''sk-'')
   \<and> fst (saveApiKey io_ok (initial_settings\<lparr>apiKey := js ''abc''\<rparr>, empty_storage, idle_client))
     = (initial_settings\<lparr>apiKey := js ''abc''\<rparr>, empty_storage, idle_client)"
proof -
  have n: "\<not> startsWith (js ''abc'') (js ''sk-'')"
    by (simp add: startsWith_def js_def)
  then have "trim (js ''abc'') = [] \<or> \<not> startsWith (js ''abc'') (js ''sk-'')"
    by simp
  from save_rejects_invalid [OF this, of io_ok initial_settings empty_storage idle_client] n
  show ?thesis by simp
qed

text \<open>
  When the completion client throws in a periodic run, the run ends with the guard
  released and no result; periodic mode is switched off and the error shown in an alert
  exactly when the error's message contains one of the two phrases of the \<open>catch\<close>
  block, and otherwise periodic mode is left as it was and nothing is shown.
\<close>

theorem periodic_error_stops_on_two_phrases:
  assumes b: "begin_frame cl (clock env) (view w) = Some v"
    and p: "after_photo (photo env) = Next uri"
    and r: "recognizeText (recognition env) (recognizer w) uri False = (Inr out, svc)"
    and q: "question_like (rec_text out)"
    and a: "analyzeText (js_engine (completion env)) (client w) (rec_text out)
              (fetch_result (completion env)) = Inl e"
  shows "realtimeEnabled (view (fst (processCurrentFrame cl env w)))
           = (realtimeEnabled (view w)
              \<and> \<not> (includes_js (message e) [0x41, 0x50, 0x49, 0x5229, 0x7528, 0x5236,
                  0x9650]
                   \<or> includes_js (message e) [0x41, 0x50, 0x49, 0x30AD, 0x30FC, 0x304C,
                       0x7121, 0x52B9]))
         \<and> alerts (snd (processCurrentFrame cl env w))
           = (if includes_js (message e) [0x41, 0x50, 0x49, 0x5229, 0x7528, 0x5236, 0x9650]
                 \<or> includes_js (message e) [0x41, 0x50, 0x49, 0x30AD, 0x30FC, 0x304C,
                     0x7121, 0x52B9]
              then [([0x41, 0x50, 0x49, 0x20, 0x30A8, 0x30E9, 0x30FC], message e)] else [])
         \<and> \<not> processingRef (view (fst (processCurrentFrame cl env w)))
         \<and> results (snd (processCurrentFrame cl env w)) = []"
proof -
  let ?w = "w\<lparr>view := v\<rparr>"
  have run: "processCurrentFrame cl env w = run_frame env ?w"
    using b by (simp add: processCurrentFrame_def)
  have r': "recognizeText (recognition env) (recognizer ?w) uri False = (Inr out, svc)"
    using r by simp
  have a': "analyzeText (js_engine (completion env)) (client ?w) (rec_text out)
              (fetch_result (completion env)) = Inl e"
    using a by simp
  have on: "realtimeEnabled (view ?w) = realtimeEnabled (view w)"
    using b by (auto simp: begin_frame_def split: if_splits)
  note h = run_frame_completion_error [OF p r' q a']
  let ?w1 = "?w\<lparr>recognizer := svc, view := (view ?w)\<lparr>isProcessing := True\<rparr>\<rparr>"
  have o: "after_ocr (recognition env) uri ?w
           = (Next (out, client ?w), ?w1, [Analyze (rec_text out)])"
    using r' q by (simp add: after_ocr_def)
  have ai: "after_ai (completion env) (out, client ?w) ?w1 = (Thrown e, ?w1, [])"
    using a' by (simp add: after_ai_def)
  have res: "results (snd (run_frame env ?w)) = []"
    using p o ai by (simp add: run_frame_def leave_frame_def catch_frame_def)
  show ?thesis
    using h on res by (simp add: run stops_realtime_def)
qed

theorem periodic_error_stops_on_two_phrases_witness:
  "begin_frame first_render
       (clock (frame seen_question (Inr (error_response 401 (js ''bad key'') (js ''invalid_api_key'')))))
       (view watching)
     = Some ((view watching)\<lparr>processingRef := True, lastProcessTime := 5000\<rparr>)
   \<and> question_like seen_question
   \<and> analyzeText plain_engine configured_client seen_question
        (Inr (error_response 401 (js ''bad key'') (js ''invalid_api_key''))) = Inl InvalidCredential
   \<and> \<not> realtimeEnabled (view (fst (processCurrentFrame first_render
        (frame seen_question (Inr (error_response 401 (js ''bad key'') (js ''invalid_api_key''))))
        watching)))
   \<and> alerts (snd (processCurrentFrame first_render
        (frame seen_question (Inr (error_response 401 (js ''bad key'') (js ''invalid_api_key''))))
        watching))
     = [([0x41, 0x50, 0x49, 0x20, 0x30A8, 0x30E9, 0x30FC], message InvalidCredential)]"
proof -
  let ?f = "frame seen_question (Inr (error_response 401 (js ''bad key'') (js ''invalid_api_key'')))"
  have b: "begin_frame first_render (clock ?f) (view watching)
     = Some ((view watching)\<lparr>processingRef := True, lastProcessTime := 5000\<rparr>)"
    by (simp add: begin_frame_def first_render_def watching_def frame_def)
  have p: "after_photo (photo ?f) = Next (js ''file:///photo.jpg'')"
    by (simp add: after_photo_def frame_def js_def)
  have r: "recognizeText (recognition ?f) (recognizer watching) (js ''file:///photo.jpg'') False
           = (Inr \<lparr>rec_text = seen_question, rec_confidence = 0.9\<rparr>, ready_service)"
    by (simp add: frame_def watching_def recognize_seen)
  have q: "question_like (rec_text \<lparr>rec_text = seen_question, rec_confidence = 0.9\<rparr>)"
    by (simp add: seen_question_like)
  have a401: "analyzeText plain_engine configured_client seen_question
      (Inr (error_response 401 (js ''bad key'') (js ''invalid_api_key''))) = Inl InvalidCredential"
    by (simp add: analyzeText_def configured_client_def error_response_def ok_def js_def)
  then have a: "analyzeText (js_engine (completion ?f)) (client watching)
             (rec_text \<lparr>rec_text = seen_question, rec_confidence = 0.9\<rparr>)
             (fetch_result (completion ?f)) = Inl InvalidCredential"
    by (simp add: frame_def watching_def)
  have s: "includes_js (message InvalidCredential) [0x41, 0x50, 0x49, 0x30AD, 0x30FC, 0x304C,
      0x7121, 0x52B9]"
    by (simp add: InvalidCredential_def)
  have on: "realtimeEnabled (view watching)"
    by (simp add: watching_def)
  show ?thesis
    using b a401 s on seen_question_like periodic_error_stops_on_two_phrases [OF b p r q a]
    by simp
qed

text \<open>
  A capture with the button whose recognized text is shorter than 2 code units sends
  nothing to the completion client: it shows one alert, gives no result and ends with
  \<open>isProcessing\<close> off.
\<close>

theorem manual_rejects_short_text:
  assumes p: "after_photo (photo env) = Next uri"
    and r: "recognizeText (recognition env) (recognizer w) uri False = (Inr out, svc)"
    and short: "length (rec_text out) < 2"
  shows "forwarded (snd (finish_manual env w)) = []
         \<and> results (snd (finish_manual env w)) = []
         \<and> length (alerts (snd (finish_manual env w))) = 1
         \<and> \<not> isProcessing (view (fst (finish_manual env w)))"
  using assms by (simp add: finish_manual_def manual_body_def)

theorem manual_rejects_short_text_witness:
  "after_photo (photo (frame (js ''a'') (Inr (completion_response (js ''x''))))) = Next (js ''file:///photo.jpg'')
   \<and> recognizeText (recognition (frame (js ''a'') (Inr (completion_response (js ''x'')))))
        (recognizer watching) (js ''file:///photo.jpg'') False
     = (Inr \<lparr>rec_text = js ''a'', rec_confidence = 0.9\<rparr>, ready_service)
   \<and> length (rec_text \<lparr>rec_text = js ''a'', rec_confidence = 0.9\<rparr>) < 2
   \<and> forwarded (snd (finish_manual (frame (js ''a'') (Inr (completion_response (js ''x'')))) watching)) = []"
proof -
  let ?f = "frame (js ''a'') (Inr (completion_response (js ''x'')))"
  have p: "after_photo (photo ?f) = Next (js ''file:///photo.jpg'')"
    by (simp add: after_photo_def frame_def js_def)
  have r: "recognizeText (recognition ?f) (recognizer watching) (js ''file:///photo.jpg'') False
     = (Inr \<lparr>rec_text = js ''a'', rec_confidence = 0.9\<rparr>, ready_service)"
    by (simp add: recognizeText_def engine_reads_def ready_service_def cleanText_def
        strip_disallowed_def trim_def js_def is_whitespace_def is_allowed_char_def
        is_word_char_def is_digit_def frame_def watching_def)
  have s: "length (rec_text \<lparr>rec_text = js ''a'', rec_confidence = 0.9\<rparr>) < 2"
    by (simp add: js_def)
  show ?thesis
    using p r s manual_rejects_short_text [OF p r s] by simp
qed

text \<open>
  A periodic run whose text is sent on and answered hands exactly one result to
  \<open>onResult\<close>, built from the recognized text and the answer, switches periodic mode off,
  releases the guard and shows no alert.
\<close>

theorem periodic_success_disables:
  assumes b: "begin_frame cl (clock env) (view w) = Some v"
    and p: "after_photo (photo env) = Next uri"
    and r: "recognizeText (recognition env) (recognizer w) uri False = (Inr out, svc)"
    and q: "question_like (rec_text out)"
    and a: "analyzeText (js_engine (completion env)) (client w) (rec_text out)
              (fetch_result (completion env)) = Inr ai"
  shows "\<not> realtimeEnabled (view (fst (processCurrentFrame cl env w)))
         \<and> \<not> processingRef (view (fst (processCurrentFrame cl env w)))
         \<and> \<not> isProcessing (view (fst (processCurrentFrame cl env w)))
         \<and> alerts (snd (processCurrentFrame cl env w)) = []
         \<and> results (snd (processCurrentFrame cl env w))
           = [(\<lparr>ocr_id = show_nat (ocr_id_clock (completion env)), ocr_text = rec_text out,
                ocr_confidence = rec_confidence out, ocr_timestamp = ocr_time (completion env)\<rparr>,
               \<lparr>ai_id = show_nat (ai_id_clock (completion env)), question = rec_text out,
                answer = ans_answer ai, explanation = ans_explanation ai,
                ai_confidence = ans_confidence ai, ai_timestamp = ai_time (completion env)\<rparr>)]"
proof -
  let ?w = "w\<lparr>view := v\<rparr>"
  have run: "processCurrentFrame cl env w = run_frame env ?w"
    using b by (simp add: processCurrentFrame_def)
  let ?w1 = "?w\<lparr>recognizer := svc, view := (view ?w)\<lparr>isProcessing := True\<rparr>\<rparr>"
  have o: "after_ocr (recognition env) uri ?w
           = (Next (out, client ?w), ?w1, [Analyze (rec_text out)])"
    using r q by (simp add: after_ocr_def)
  show ?thesis
    using p o a
    by (simp add: run run_frame_def after_ai_def leave_frame_def finally_frame_def)
qed

theorem periodic_success_disables_witness:
  "begin_frame first_render (clock (frame seen_question (Inr (completion_response (js ''hello'')))))
       (view watching)
     = Some ((view watching)\<lparr>processingRef := True, lastProcessTime := 5000\<rparr>)
   \<and> question_like seen_question
   \<and> analyzeText plain_engine configured_client seen_question
        (Inr (completion_response (js ''hello''))) = Inr (raw_answer (JStr (js ''hello'')))
   \<and> \<not> realtimeEnabled (view (fst (processCurrentFrame first_render
        (frame seen_question (Inr (completion_response (js ''hello'')))) watching)))
   \<and> length (results (snd (processCurrentFrame first_render
        (frame seen_question (Inr (completion_response (js ''hello'')))) watching))) = 1"
proof -
  let ?f = "frame seen_question (Inr (completion_response (js ''hello'')))"
  have b: "begin_frame first_render (clock ?f) (view watching)
     = Some ((view watching)\<lparr>processingRef := True, lastProcessTime := 5000\<rparr>)"
    by (simp add: begin_frame_def first_render_def watching_def frame_def)
  have p: "after_photo (photo ?f) = Next (js ''file:///photo.jpg'')"
    by (simp add: after_photo_def frame_def js_def)
  have r: "recognizeText (recognition ?f) (recognizer watching) (js ''file:///photo.jpg'') False
           = (Inr \<lparr>rec_text = seen_question, rec_confidence = 0.9\<rparr>, ready_service)"
    by (simp add: frame_def watching_def recognize_seen)
  have q: "question_like (rec_text \<lparr>rec_text = seen_question, rec_confidence = 0.9\<rparr>)"
    by (simp add: seen_question_like)
  have ok: "analyzeText plain_engine configured_client seen_question
        (Inr (completion_response (js ''hello''))) = Inr (raw_answer (JStr (js ''hello'')))"
    by (simp add: analyze_completion_response parse_answer_def parse_hello)
  then have a: "analyzeText (js_engine (completion ?f)) (client watching)
             (rec_text \<lparr>rec_text = seen_question, rec_confidence = 0.9\<rparr>)
             (fetch_result (completion ?f)) = Inr (raw_answer (JStr (js ''hello'')))"
    by (simp add: frame_def watching_def)
  show ?thesis
    using b ok seen_question_like periodic_success_disables [OF b p r q a]
    by simp
qed

text \<open>
  After \<open>clearHistory\<close> the stored history is gone and the screen shows the empty list,
  and a \<open>loadHistory\<close> that follows, whatever its read does, still shows the empty list.
\<close>

theorem clear_then_load_is_empty:
  "analysis_history (snd (clearHistory io_ok s)) = None
   \<and> history_list (fst (clearHistory io_ok s)) = []
   \<and> history_list (fst (loadHistory env (clearHistory io_ok s))) = []"
  by (simp add: clearHistory_def loadHistory_def io_ok_def)

text \<open>
  \<open>deleteItem\<close> shows the list without the items of the given id, in the same order, and
  when the write is accepted stores exactly that list: no item of that id is left and
  the list has not grown.
\<close>

theorem delete_item_filters:
  "history_list (fst (deleteItem env itemId s))
     = filter (\<lambda>item. item_id item \<noteq> itemId) (history_list (fst s))
   \<and> analysis_history (snd (deleteItem io_ok itemId s))
     = Some (filter (\<lambda>item. item_id item \<noteq> itemId) (history_list (fst s)))
   \<and> itemId \<notin> item_id ` set (history_list (fst (deleteItem env itemId s)))
   \<and> length (history_list (fst (deleteItem env itemId s))) \<le> length (history_list (fst s))"
  by (auto simp: deleteItem_def Let_def io_ok_def)

end
